theory Spec2Isabelle
  imports Complex_Main
begin

section \<open>JavaScript values used by the pages\<close>

text \<open>
  A JavaScript \<^verbatim>\<open>number\<close> as the forms use it: either \<^verbatim>\<open>NaN\<close> (what
  \<^verbatim>\<open>parseFloat\<close> yields for an emptied input) or a finite value. The pages only
  store the number, compare nothing and test its truthiness, so the finite values
  are taken as reals; \<^verbatim>\<open>+0\<close> and \<^verbatim>\<open>-0\<close> are both \<open>Num 0\<close>.
\<close>

datatype number = NaN | Num real

text \<open>Truthiness: \<^verbatim>\<open>!s\<close> holds for the empty string only, \<^verbatim>\<open>!n\<close> for 0 and NaN.\<close>

definition truthy_str :: "string \<Rightarrow> bool" where
  "truthy_str s = (s \<noteq> [])"

definition truthy_num :: "number \<Rightarrow> bool" where
  "truthy_num n = (case n of NaN \<Rightarrow> False | Num r \<Rightarrow> r \<noteq> 0)"

text \<open>The error objects of the backend; the pages read only \<^verbatim>\<open>error.message\<close>.\<close>

datatype error = Error (message: string)

section \<open>Data model of \<^verbatim>\<open>src/app/profile/page.tsx\<close>\<close>

record Category =
  cat_id :: string
  cat_name :: string

record Subcategory =
  sub_id :: string
  sub_name :: string
  sub_category_id :: string

text \<open>\<^verbatim>\<open>interface Service\<close>; the optional \<^verbatim>\<open>id?\<close> is \<open>None\<close> when absent.\<close>

record Service =
  service_id :: "string option"
  category_id :: string
  subcategory_id :: string
  description :: string
  rate :: number
  currency :: string

text \<open>The signed-in user of the store (\<^verbatim>\<open>state.auth.user\<close>).\<close>

record session_user =
  u_id :: string
  u_email :: "string option"
  u_name :: "string option"

datatype toast = ToastError string | ToastSuccess string

text \<open>The fields a profile update may carry; a key that was not set is \<open>None\<close>.\<close>

record profileUpdates =
  pu_name :: "string option"
  pu_email :: "string option"
  pu_bio :: "string option"

text \<open>The columns written for a service by the bulk save.\<close>

record service_payload =
  p_category_id :: string
  p_subcategory_id :: string
  p_description :: string
  p_rate :: number
  p_currency :: string

text \<open>
  The requests the page's handlers send to the backend:
  \<^item> \<open>UserUpdate p uid\<close>: \<^verbatim>\<open>from("user").update(p).eq("id", uid)\<close>;
  \<^item> \<open>AuthUpdateUser e n\<close>: \<^verbatim>\<open>auth.updateUser({email: e, data: n ? {name: n} : undefined})\<close>;
  \<^item> \<open>ServiceUpdate p sid\<close>: \<^verbatim>\<open>from("services").update(p).eq("id", sid)\<close>;
  \<^item> \<open>ServiceInsert uid p\<close>: \<^verbatim>\<open>from("services").insert({user_id: uid, ...p})\<close>.
\<close>

datatype call =
    UserUpdate profileUpdates string
  | AuthUpdateUser "string option" "string option"
  | ServiceUpdate service_payload string
  | ServiceInsert string service_payload

text \<open>
  The backend is outside the repository. It is a parameter: given the requests
  already sent and the current one, it answers with the \<^verbatim>\<open>error\<close> field of the
  response (\<open>None\<close> is \<^verbatim>\<open>null\<close>).
\<close>

type_synonym backend = "call list \<Rightarrow> call \<Rightarrow> error option"

text \<open>
  The component state of \<^verbatim>\<open>ProfilePage\<close> (its \<^verbatim>\<open>useState\<close> cells and the store's
  user), together with what the handlers emit: the notifications raised, the
  routes pushed and the backend requests issued, each in order.
\<close>

record page =
  user :: "session_user option"
  name :: string
  email :: string
  bio :: string
  services :: "Service list"
  categories :: "Category list"
  subcategories :: "Subcategory list"
  loading :: bool
  newService :: Service
  toasts :: "toast list"
  routes :: "string list"
  calls :: "call list"

text \<open>The value every \<^verbatim>\<open>setNewService\<close> reset and the initial \<^verbatim>\<open>useState\<close> use.\<close>

definition emptyService :: Service where
  "emptyService =
     \<lparr>service_id = None, category_id = [], subcategory_id = [], description = [],
      rate = Num 0, currency = ''USD''\<rparr>"

definition initial_page :: "session_user option \<Rightarrow> page" where
  "initial_page u =
     \<lparr>user = u, name = [], email = [], bio = [], services = [], categories = [],
      subcategories = [], loading = False, newService = emptyService, toasts = [],
      routes = [], calls = []\<rparr>"

subsection \<open>\<^verbatim>\<open>addService\<close>\<close>

definition addService :: "page \<Rightarrow> page" where
  "addService st =
     (if \<not> truthy_str (category_id (newService st)) \<or>
         \<not> truthy_str (subcategory_id (newService st)) \<or>
         \<not> truthy_str (description (newService st)) \<or>
         \<not> truthy_num (rate (newService st))
      then st\<lparr>toasts := toasts st @ [ToastError ''Please fill in all service fields'']\<rparr>
      else st\<lparr>services := services st @ [newService st], newService := emptyService\<rparr>)"

subsection \<open>\<^verbatim>\<open>getCategoryName\<close>, \<^verbatim>\<open>getSubcategoryName\<close> and the rendered entry\<close>

text \<open>\<^verbatim>\<open>categories.find((c) => c.id === categoryId)?.name || ""\<close>\<close>

definition getCategoryName :: "Category list \<Rightarrow> string \<Rightarrow> string" where
  "getCategoryName cs categoryId =
     (case find (\<lambda>c. cat_id c = categoryId) cs of
        None \<Rightarrow> []
      | Some c \<Rightarrow> (if truthy_str (cat_name c) then cat_name c else []))"

definition getSubcategoryName :: "Subcategory list \<Rightarrow> string \<Rightarrow> string" where
  "getSubcategoryName ss subcategoryId =
     (case find (\<lambda>s. sub_id s = subcategoryId) ss of
        None \<Rightarrow> []
      | Some s \<Rightarrow> (if truthy_str (sub_name s) then sub_name s else []))"

text \<open>
  The heading rendered for one entry of the list: the category name and the
  subcategory name, looked up in the lists the page currently holds.
\<close>

definition displayed_names :: "page \<Rightarrow> Service \<Rightarrow> string \<times> string" where
  "displayed_names st s =
     (getCategoryName (categories st) (category_id s),
      getSubcategoryName (subcategories st) (subcategory_id s))"

subsection \<open>\<^verbatim>\<open>handleSubmit\<close>\<close>

text \<open>
  \<^verbatim>\<open>if (name) profileUpdates.name = name\<close>, and the same for email and bio: a key
  is set only for a non-empty field.
\<close>

definition build_profileUpdates :: "page \<Rightarrow> profileUpdates" where
  "build_profileUpdates st =
     \<lparr>pu_name = (if truthy_str (name st) then Some (name st) else None),
      pu_email = (if truthy_str (email st) then Some (email st) else None),
      pu_bio = (if truthy_str (bio st) then Some (bio st) else None)\<rparr>"

text \<open>\<^verbatim>\<open>Object.keys(profileUpdates).length\<close>\<close>

definition keys_length :: "profileUpdates \<Rightarrow> nat" where
  "keys_length pu =
     (if pu_name pu = None then 0 else 1) + (if pu_email pu = None then 0 else 1) +
     (if pu_bio pu = None then 0 else 1)"

text \<open>\<^verbatim>\<open>x || undefined\<close> for a string.\<close>

definition or_undefined :: "string \<Rightarrow> string option" where
  "or_undefined s = (if truthy_str s then Some s else None)"

text \<open>\<^verbatim>\<open>{...user, ...(name && {name}), ...(email && {email})}\<close>\<close>

definition merge_user :: "session_user \<Rightarrow> string \<Rightarrow> string \<Rightarrow> session_user" where
  "merge_user u n e =
     u\<lparr>u_name := (if truthy_str n then Some n else u_name u),
       u_email := (if truthy_str e then Some e else u_email u)\<rparr>"

text \<open>The two ways out of the \<^verbatim>\<open>try\<close> block; \<^verbatim>\<open>finally\<close> clears \<^verbatim>\<open>loading\<close> in both.\<close>

definition submit_succeeded :: "page \<Rightarrow> page" where
  "submit_succeeded st =
     st\<lparr>toasts := toasts st @ [ToastSuccess ''Profile updated successfully!''],
        routes := routes st @ [''/''], loading := False\<rparr>"

definition caught :: "error \<Rightarrow> page \<Rightarrow> page" where
  "caught e st = st\<lparr>toasts := toasts st @ [ToastError (message e)], loading := False\<rparr>"

text \<open>Sending a request appends it to the log; the backend's answer is its error field.\<close>

definition send :: "backend \<Rightarrow> call \<Rightarrow> page \<Rightarrow> error option \<times> page" where
  "send be c st = (be (calls st) c, st\<lparr>calls := calls st @ [c]\<rparr>)"

text \<open>
  \<^verbatim>\<open>handleSubmit\<close>. A backend error is thrown inside the \<^verbatim>\<open>try\<close> and reaches the
  \<^verbatim>\<open>catch\<close>, which raises a notification with its message.
\<close>

definition handleSubmit :: "backend \<Rightarrow> page \<Rightarrow> page" where
  "handleSubmit be st =
     (case user st of
        None \<Rightarrow> st
      | Some u \<Rightarrow>
          let st1 = st\<lparr>loading := True\<rparr>;
              pu = build_profileUpdates st1
          in if keys_length pu > 0 then
               (case send be (UserUpdate pu (u_id u)) st1 of
                  (Some profileError, st2) \<Rightarrow> caught profileError st2
                | (None, st2) \<Rightarrow>
                    if truthy_str (email st2) \<or> truthy_str (name st2) then
                      (case send be (AuthUpdateUser (or_undefined (email st2))
                                       (or_undefined (name st2))) st2 of
                         (Some updateError, st3) \<Rightarrow> caught updateError st3
                       | (None, st3) \<Rightarrow>
                           submit_succeeded
                             (st3\<lparr>user := Some (merge_user u (name st3) (email st3))\<rparr>))
                    else submit_succeeded st2)
             else submit_succeeded st1)"

subsection \<open>\<^verbatim>\<open>handleSaveServices\<close>\<close>

definition payload_of :: "Service \<Rightarrow> service_payload" where
  "payload_of s =
     \<lparr>p_category_id = category_id s, p_subcategory_id = subcategory_id s,
      p_description = description s, p_rate = rate s, p_currency = currency s\<rparr>"

text \<open>
  The request of one loop iteration: \<^verbatim>\<open>if (service.id)\<close> is true for an id that is
  present and not the empty string.
\<close>

definition service_call :: "string \<Rightarrow> Service \<Rightarrow> call" where
  "service_call uid s =
     (case service_id s of
        Some i \<Rightarrow> (if truthy_str i then ServiceUpdate (payload_of s) i
                   else ServiceInsert uid (payload_of s))
      | None \<Rightarrow> ServiceInsert uid (payload_of s))"

text \<open>
  The \<^verbatim>\<open>for (const service of services)\<close> loop: the first error answered is thrown,
  which ends the loop.
\<close>

fun save_loop :: "backend \<Rightarrow> string \<Rightarrow> Service list \<Rightarrow> page \<Rightarrow> error option \<times> page" where
  "save_loop be uid [] st = (None, st)"
| "save_loop be uid (s # ss) st =
     (case send be (service_call uid s) st of
        (Some e, st') \<Rightarrow> (Some e, st')
      | (None, st') \<Rightarrow> save_loop be uid ss st')"

definition handleSaveServices :: "backend \<Rightarrow> page \<Rightarrow> page" where
  "handleSaveServices be st =
     (case user st of
        None \<Rightarrow> st
      | Some u \<Rightarrow>
          (case save_loop be (u_id u) (services st) (st\<lparr>loading := True\<rparr>) of
             (Some e, st') \<Rightarrow> caught e st'
           | (None, st') \<Rightarrow>
               st'\<lparr>toasts := toasts st' @ [ToastSuccess ''Services updated successfully!''],
                   loading := False\<rparr>))"

text \<open>Concrete inputs used to run the definitions.\<close>

definition example_categories :: "Category list" where
  "example_categories =
     [\<lparr>cat_id = ''c1'', cat_name = ''Web Development''\<rparr>,
      \<lparr>cat_id = ''c2'', cat_name = ''Data Science''\<rparr>]"

definition example_subcategories :: "Subcategory list" where
  "example_subcategories =
     [\<lparr>sub_id = ''s1'', sub_name = ''Frontend Development'', sub_category_id = ''c1''\<rparr>,
      \<lparr>sub_id = ''s2'', sub_name = ''Data Analysis'', sub_category_id = ''c2''\<rparr>]"

definition example_user :: session_user where
  "example_user = \<lparr>u_id = ''u1'', u_email = Some ''a@b.c'', u_name = Some ''Ann''\<rparr>"

definition example_draft :: "number \<Rightarrow> Service" where
  "example_draft r =
     \<lparr>service_id = None, category_id = ''c1'', subcategory_id = ''s1'',
      description = ''Landing pages'', rate = r, currency = ''USD''\<rparr>"

definition example_page :: "Service \<Rightarrow> page" where
  "example_page ns =
     (initial_page (Some example_user))
       \<lparr>categories := example_categories, subcategories := example_subcategories,
        newService := ns\<rparr>"

definition ok_backend :: backend where
  "ok_backend sent c = None"

definition failing_backend :: backend where
  "failing_backend sent c = Some (Error ''permission denied'')"

definition example_saved :: Service where
  "example_saved =
     \<lparr>service_id = Some ''sv1'', category_id = ''c2'', subcategory_id = ''s2'',
      description = ''Dashboards'', rate = Num 40, currency = ''EUR''\<rparr>"

definition example_services_page :: page where
  "example_services_page =
     (initial_page (Some example_user))
       \<lparr>services := [example_draft (Num 25), example_saved]\<rparr>"

section \<open>The relational store and \<^verbatim>\<open>src/lib/supabase.ts\<close>\<close>

text \<open>
  A response of the backend client: the object \<^verbatim>\<open>{ data, error }\<close>, each field
  possibly \<^verbatim>\<open>null\<close>.
\<close>

datatype 'a response = Response (data: "'a option") (error: "error option")

text \<open>A row of the profile table; its text columns are nullable.\<close>

record user_row =
  row_id :: string
  row_name :: "string option"
  row_email :: "string option"
  row_bio :: "string option"

text \<open>\<^verbatim>\<open>.select("*").eq("id", userId)\<close>: the rows whose id equals the given one.\<close>

definition select_eq_id :: "user_row list \<Rightarrow> string \<Rightarrow> user_row list" where
  "select_eq_id rows userId = filter (\<lambda>r. row_id r = userId) rows"

text \<open>
  The two single-row finishers of the query builder belong to the backend's
  client library, not to the repository. They are taken by their documented
  contract: \<^verbatim>\<open>.single()\<close> demands exactly one row and answers with an error
  otherwise; \<^verbatim>\<open>.maybeSingle()\<close> demands at most one row and answers zero rows with
  \<^verbatim>\<open>null\<close> data and no error.
\<close>

definition not_one_row :: error where
  "not_one_row = Error ''JSON object requested, multiple (or no) rows returned''"

definition single :: "'a list \<Rightarrow> 'a response" where
  "single rows =
     (case rows of
        [r] \<Rightarrow> Response (Some r) None
      | _ \<Rightarrow> Response None (Some not_one_row))"

definition maybeSingle :: "'a list \<Rightarrow> 'a response" where
  "maybeSingle rows =
     (case rows of
        [] \<Rightarrow> Response None None
      | [r] \<Rightarrow> Response (Some r) None
      | _ \<Rightarrow> Response None (Some not_one_row))"

text \<open>
  \<^verbatim>\<open>supabaseDb.getUser\<close>: the query on table \<^verbatim>\<open>users\<close>, finished with
  \<^verbatim>\<open>.single()\<close>, and its two fields returned as they are.
\<close>

definition getUser :: "user_row list \<Rightarrow> string \<Rightarrow> user_row response" where
  "getUser users userId =
     (case single (select_eq_id users userId) of
        Response d e \<Rightarrow> Response d e)"

subsection \<open>The profile page's \<^verbatim>\<open>fetchData\<close>\<close>

text \<open>
  What the page reads on mount: the answers to the category and subcategory
  list queries, the rows of table \<^verbatim>\<open>user\<close>, and the answer to the services query
  for a user id.
\<close>

record database =
  categories_res :: "Category list response"
  subcategories_res :: "Subcategory list response"
  user_tbl :: "user_row list"
  services_res :: "string \<Rightarrow> Service list response"

text \<open>\<^verbatim>\<open>data || []\<close> and \<^verbatim>\<open>profileData?.name || ""\<close>\<close>

definition or_empty :: "'a list option \<Rightarrow> 'a list" where
  "or_empty d = (case d of None \<Rightarrow> [] | Some xs \<Rightarrow> xs)"

definition field_or_empty :: "(user_row \<Rightarrow> string option) \<Rightarrow> user_row option \<Rightarrow> string" where
  "field_or_empty f profileData =
     (case profileData of
        None \<Rightarrow> []
      | Some r \<Rightarrow> (case f r of None \<Rightarrow> [] | Some s \<Rightarrow> (if truthy_str s then s else [])))"

definition toast_error :: "string \<Rightarrow> page \<Rightarrow> page" where
  "toast_error m st = st\<lparr>toasts := toasts st @ [ToastError m]\<rparr>"

text \<open>The profile query of \<^verbatim>\<open>fetchData\<close>, finished with \<^verbatim>\<open>.maybeSingle()\<close>.\<close>

definition fetch_profile :: "database \<Rightarrow> string \<Rightarrow> user_row response" where
  "fetch_profile db userId = maybeSingle (select_eq_id (user_tbl db) userId)"

definition fetchData :: "database \<Rightarrow> session_user \<Rightarrow> page \<Rightarrow> page" where
  "fetchData db u st =
     (case error (categories_res db) of
        Some categoriesError \<Rightarrow> toast_error ''Error fetching categories'' st
      | None \<Rightarrow>
          let st1 = st\<lparr>categories := or_empty (data (categories_res db))\<rparr> in
          (case error (subcategories_res db) of
             Some subcategoriesError \<Rightarrow> toast_error ''Error fetching subcategories'' st1
           | None \<Rightarrow>
               let st2 = st1\<lparr>subcategories := or_empty (data (subcategories_res db))\<rparr>;
                   profile = fetch_profile db (u_id u)
               in (case error profile of
                     Some profileError \<Rightarrow> toast_error ''Error fetching profile'' st2
                   | None \<Rightarrow>
                       let st3 = st2\<lparr>name := field_or_empty row_name (data profile),
                                     email := field_or_empty row_email (data profile),
                                     bio := field_or_empty row_bio (data profile)\<rparr>;
                           servicesRes = services_res db (u_id u)
                       in (case error servicesRes of
                             Some servicesError \<Rightarrow> toast_error ''Error fetching services'' st3
                           | None \<Rightarrow> st3\<lparr>services := or_empty (data servicesRes)\<rparr>))))"

text \<open>The effect that runs when the page mounts.\<close>

definition page_effect :: "database \<Rightarrow> page \<Rightarrow> page" where
  "page_effect db st =
     (case user st of
        None \<Rightarrow> st\<lparr>routes := routes st @ [''/auth/login'']\<rparr>
      | Some u \<Rightarrow> fetchData db u st)"

subsection \<open>\<^verbatim>\<open>supabaseAuth\<close>\<close>

text \<open>
  What an awaited promise gives: the value it resolves with, or the value it
  rejects with, which \<^verbatim>\<open>await\<close> throws.
\<close>

datatype thrown = JsError string | NonError

datatype 'a promise = Resolved 'a | Rejected thrown

text \<open>
  The objects the gateway returns: \<^verbatim>\<open>{ data, error }\<close> is a \<open>response\<close>,
  \<^verbatim>\<open>{ error }\<close> and \<^verbatim>\<open>{ user, error }\<close> are the two below.
\<close>

datatype only_error = OnlyError "error option"

datatype 'u user_error = UserError "'u option" "error option"

text \<open>
  The auth provider (\<^verbatim>\<open>supabase.auth\<close>) is a parameter. Each method answers with
  a promise; \<^verbatim>\<open>getUser\<close> resolves with \<^verbatim>\<open>{ data: { user }, error }\<close>, whose \<open>data\<close>
  is always an object, so the response holds the user directly.
\<close>

record ('d, 'u) auth_provider =
  auth_signUp :: "string \<Rightarrow> string \<Rightarrow> 'd response promise"
  auth_signInWithPassword :: "string \<Rightarrow> string \<Rightarrow> 'd response promise"
  auth_signOut :: "only_error promise"
  auth_getUser :: "'u response promise"
  auth_updateUser :: "string option \<Rightarrow> 'u response promise"

definition signUp :: "('d, 'u) auth_provider \<Rightarrow> string \<Rightarrow> string \<Rightarrow> 'd response promise" where
  "signUp p em password =
     (case auth_signUp p em password of
        Rejected x \<Rightarrow> Rejected x
      | Resolved (Response d e) \<Rightarrow> Resolved (Response d e))"

definition signIn :: "('d, 'u) auth_provider \<Rightarrow> string \<Rightarrow> string \<Rightarrow> 'd response promise" where
  "signIn p em password =
     (case auth_signInWithPassword p em password of
        Rejected x \<Rightarrow> Rejected x
      | Resolved (Response d e) \<Rightarrow> Resolved (Response d e))"

definition signOut :: "('d, 'u) auth_provider \<Rightarrow> only_error promise" where
  "signOut p =
     (case auth_signOut p of
        Rejected x \<Rightarrow> Rejected x
      | Resolved (OnlyError e) \<Rightarrow> Resolved (OnlyError e))"

definition getCurrentUser :: "('d, 'u) auth_provider \<Rightarrow> 'u user_error promise" where
  "getCurrentUser p =
     (case auth_getUser p of
        Rejected x \<Rightarrow> Rejected x
      | Resolved (Response usr e) \<Rightarrow> Resolved (UserError usr e))"

text \<open>\<^verbatim>\<open>updateProfile(updates: { name?: string })\<close>; the argument is the optional name.\<close>

definition updateProfile :: "('d, 'u) auth_provider \<Rightarrow> string option \<Rightarrow> 'u response promise" where
  "updateProfile p updates =
     (case auth_updateUser p updates of
        Rejected x \<Rightarrow> Rejected x
      | Resolved (Response d e) \<Rightarrow> Resolved (Response d e))"

text \<open>Concrete stores and providers used to run the definitions.\<close>

definition example_rows :: "user_row list" where
  "example_rows =
     [\<lparr>row_id = ''u2'', row_name = Some ''Bob'', row_email = Some ''b@b.c'', row_bio = None\<rparr>]"

definition example_db :: database where
  "example_db =
     \<lparr>categories_res = Response (Some example_categories) None,
      subcategories_res = Response (Some example_subcategories) None,
      user_tbl = example_rows,
      services_res = (\<lambda>uid. Response (Some []) None)\<rparr>"

definition resolving_provider :: "(string, string) auth_provider" where
  "resolving_provider =
     \<lparr>auth_signUp = (\<lambda>em pw. Resolved (Response (Some em) None)),
      auth_signInWithPassword =
        (\<lambda>em pw. Resolved (Response None (Some (Error ''Invalid login credentials'')))),
      auth_signOut = Resolved (OnlyError None),
      auth_getUser = Resolved (Response (Some ''u1'') None),
      auth_updateUser = (\<lambda>n. Resolved (Response (Some ''u1'') None))\<rparr>"

definition rejecting_provider :: "(string, string) auth_provider" where
  "rejecting_provider =
     \<lparr>auth_signUp = (\<lambda>em pw. Rejected (JsError ''fetch failed'')),
      auth_signInWithPassword = (\<lambda>em pw. Rejected (JsError ''fetch failed'')),
      auth_signOut = Rejected (JsError ''fetch failed''),
      auth_getUser = Rejected (JsError ''fetch failed''),
      auth_updateUser = (\<lambda>n. Rejected (JsError ''fetch failed''))\<rparr>"

section \<open>The reference-data fetch hooks\<close>

text \<open>\<^verbatim>\<open>error instanceof Error ? error.message : fallback\<close>\<close>

definition message_or :: "string \<Rightarrow> thrown \<Rightarrow> string" where
  "message_or fallback x = (case x of JsError m \<Rightarrow> m | NonError \<Rightarrow> fallback)"

subsection \<open>\<^verbatim>\<open>useServiceSubcategories\<close>\<close>

record sub_state =
  subCategories :: "Subcategory list"
  sub_loading :: bool
  sub_error :: "string option"

text \<open>
  One run of the hook's effect. Its closure owns the variable \<^verbatim>\<open>mounted\<close>;
  \<open>awaiting\<close> tells whether the run is suspended at its \<^verbatim>\<open>await\<close>.
\<close>

record sub_effect =
  mounted :: bool
  awaiting :: bool
  effect_categoryId :: string

text \<open>
  A hook instance: its state cell, every effect run so far (oldest first), the
  network calls issued (the category id passed to each), every state written by
  a \<^verbatim>\<open>setState\<close> call, and whether the component has unmounted.
\<close>

record sub_hook =
  state :: sub_state
  effects :: "sub_effect list"
  requests :: "string list"
  written :: "sub_state list"
  unmounted :: bool

definition sub_init :: sub_hook where
  "sub_init =
     \<lparr>state = \<lparr>subCategories = [], sub_loading = False, sub_error = None\<rparr>,
      effects = [], requests = [], written = [], unmounted = False\<rparr>"

definition setState :: "sub_state \<Rightarrow> sub_hook \<Rightarrow> sub_hook" where
  "setState s h = h\<lparr>state := s, written := written h @ [s]\<rparr>"

text \<open>
  \<^verbatim>\<open>fetchSubcategories()\<close> up to its first suspension, in a fresh closure with
  \<^verbatim>\<open>mounted = true\<close>: an empty id sets the state and returns; otherwise
  \<^verbatim>\<open>loading\<close> is raised and the network call is issued.
\<close>

definition fetchSubcategories :: "string \<Rightarrow> sub_hook \<Rightarrow> sub_hook" where
  "fetchSubcategories c h =
     (if \<not> truthy_str c
      then (setState \<lparr>subCategories = [], sub_loading = False, sub_error = None\<rparr> h)
             \<lparr>effects := effects h @ [\<lparr>mounted = True, awaiting = False, effect_categoryId = c\<rparr>]\<rparr>
      else (setState ((state h)\<lparr>sub_loading := True\<rparr>) h)
             \<lparr>effects := effects h @ [\<lparr>mounted = True, awaiting = True, effect_categoryId = c\<rparr>],
              requests := requests h @ [c]\<rparr>)"

text \<open>The cleanup of the latest effect run: \<^verbatim>\<open>mounted = false\<close> in its closure.\<close>

definition cleanup_last :: "sub_effect list \<Rightarrow> sub_effect list" where
  "cleanup_last es = (if es = [] then [] else butlast es @ [(last es)\<lparr>mounted := False\<rparr>])"

text \<open>
  The fetch of effect run \<open>i\<close> settles and the run resumes after its \<^verbatim>\<open>await\<close>:
  in the \<^verbatim>\<open>try\<close> block when the promise resolved, in the \<^verbatim>\<open>catch\<close> block when it
  rejected.
\<close>

definition settle :: "nat \<Rightarrow> Subcategory list option promise \<Rightarrow> sub_hook \<Rightarrow> sub_hook" where
  "settle i out h =
     (if i < length (effects h) \<and> awaiting (effects h ! i) then
        let e = effects h ! i;
            h' = h\<lparr>effects := (effects h)[i := e\<lparr>awaiting := False\<rparr>]\<rparr>
        in (case out of
              Resolved fetched \<Rightarrow>
                if \<not> mounted e then h'
                else setState \<lparr>subCategories = or_empty fetched, sub_loading = False,
                                sub_error = None\<rparr> h'
            | Rejected x \<Rightarrow>
                if \<not> mounted e then h'
                else setState \<lparr>subCategories = [], sub_loading = False,
                                sub_error = Some (message_or ''Failed to fetch subcategories'' x)\<rparr>
                       h')
      else h)"

text \<open>
  What can happen to a hook instance: the component renders with a category id
  (the effect runs on mount and whenever the id differs from the one of the
  latest run, after the cleanup of that run), a fetch in flight settles, or the
  component unmounts (the cleanup of the latest run).
\<close>

datatype hook_event =
    Render string
  | Settle nat "Subcategory list option promise"
  | Unmount

fun sub_step :: "hook_event \<Rightarrow> sub_hook \<Rightarrow> sub_hook" where
  "sub_step (Render c) h =
     (if unmounted h then h
      else if effects h \<noteq> [] \<and> effect_categoryId (last (effects h)) = c then h
      else fetchSubcategories c (h\<lparr>effects := cleanup_last (effects h)\<rparr>))"
| "sub_step (Settle i out) h = settle i out h"
| "sub_step Unmount h =
     (if unmounted h then h
      else h\<lparr>effects := cleanup_last (effects h), unmounted := True\<rparr>)"

definition sub_run :: "hook_event list \<Rightarrow> sub_hook \<Rightarrow> sub_hook" where
  "sub_run evs h = foldl (\<lambda>h ev. sub_step ev h) h evs"

subsection \<open>\<^verbatim>\<open>useServiceCategories\<close>\<close>

record cat_state =
  cat_categories :: "Category list"
  cat_subCategories :: "Subcategory list"
  cat_loading :: bool
  cat_error :: "string option"

text \<open>
  The effect has an empty dependency list, so it runs once, on mount; the
  instance holds the state cell, the closure's \<^verbatim>\<open>mounted\<close>, whether the fetch is
  in flight, and every state written.
\<close>

record cat_hook =
  cstate :: cat_state
  cmounted :: bool
  cawaiting :: bool
  cwritten :: "cat_state list"

definition cat_mount :: cat_hook where
  "cat_mount =
     \<lparr>cstate = \<lparr>cat_categories = [], cat_subCategories = [], cat_loading = True,
                 cat_error = None\<rparr>,
      cmounted = True, cawaiting = True, cwritten = []\<rparr>"

definition csetState :: "cat_state \<Rightarrow> cat_hook \<Rightarrow> cat_hook" where
  "csetState s h = h\<lparr>cstate := s, cwritten := cwritten h @ [s]\<rparr>"

datatype cat_event =
    CatSettle "(Category list \<times> Subcategory list) promise"
  | CatUnmount

fun cat_step :: "cat_event \<Rightarrow> cat_hook \<Rightarrow> cat_hook" where
  "cat_step (CatSettle out) h =
     (if cawaiting h then
        let h' = h\<lparr>cawaiting := False\<rparr>
        in (case out of
              Resolved (cs, ss) \<Rightarrow>
                if \<not> cmounted h then h'
                else csetState \<lparr>cat_categories = cs, cat_subCategories = ss,
                                 cat_loading = False, cat_error = None\<rparr> h'
            | Rejected x \<Rightarrow>
                if \<not> cmounted h then h'
                else csetState ((cstate h)\<lparr>cat_loading := False,
                                   cat_error := Some (message_or ''Failed to fetch categories'' x)\<rparr>)
                       h')
      else h)"
| "cat_step CatUnmount h = h\<lparr>cmounted := False\<rparr>"

definition cat_run :: "cat_event list \<Rightarrow> cat_hook \<Rightarrow> cat_hook" where
  "cat_run evs h = foldl (\<lambda>h ev. cat_step ev h) h evs"

section \<open>The new-service forms\<close>

subsection \<open>The form of \<^verbatim>\<open>ProfilePage\<close>\<close>

text \<open>\<^verbatim>\<open>services.filter((_, i) => i !== index)\<close>\<close>

definition removeService :: "nat \<Rightarrow> page \<Rightarrow> page" where
  "removeService index st =
     st\<lparr>services := map snd (filter (\<lambda>(i, s). i \<noteq> index) (enumerate 0 (services st)))\<rparr>"

text \<open>
  The handlers of the form: the \<^verbatim>\<open>onChange\<close> of the category, subcategory,
  description, currency and rate inputs, and the two buttons.
\<close>

datatype form_event =
    CategoryChange string
  | SubcategoryChange string
  | DescriptionChange string
  | CurrencyChange string
  | RateChange number
  | AddService
  | RemoveService nat

fun form_step :: "form_event \<Rightarrow> page \<Rightarrow> page" where
  "form_step (CategoryChange v) st =
     st\<lparr>newService := (newService st)\<lparr>category_id := v, subcategory_id := []\<rparr>\<rparr>"
| "form_step (SubcategoryChange v) st =
     st\<lparr>newService := (newService st)\<lparr>subcategory_id := v\<rparr>\<rparr>"
| "form_step (DescriptionChange v) st =
     st\<lparr>newService := (newService st)\<lparr>description := v\<rparr>\<rparr>"
| "form_step (CurrencyChange v) st =
     st\<lparr>newService := (newService st)\<lparr>currency := v\<rparr>\<rparr>"
| "form_step (RateChange r) st =
     st\<lparr>newService := (newService st)\<lparr>rate := r\<rparr>\<rparr>"
| "form_step AddService st = addService st"
| "form_step (RemoveService index) st = removeService index st"

definition form_run :: "form_event list \<Rightarrow> page \<Rightarrow> page" where
  "form_run evs st = foldl (\<lambda>st ev. form_step ev st) st evs"

subsection \<open>The form of \<^verbatim>\<open>AddServicePage\<close>\<close>

record add_page =
  selectedCategory :: string
  selectedSubcategory :: string

definition add_page_init :: add_page where
  "add_page_init = \<lparr>selectedCategory = [], selectedSubcategory = []\<rparr>"

datatype add_event = OnCategoryChange string | OnSubcategoryChange string

fun add_step :: "add_event \<Rightarrow> add_page \<Rightarrow> add_page" where
  "add_step (OnCategoryChange v) st = st\<lparr>selectedCategory := v, selectedSubcategory := []\<rparr>"
| "add_step (OnSubcategoryChange v) st = st\<lparr>selectedSubcategory := v\<rparr>"

definition add_run :: "add_event list \<Rightarrow> add_page \<Rightarrow> add_page" where
  "add_run evs st = foldl (\<lambda>st ev. add_step ev st) st evs"

subsection \<open>The invariant of the effect runs\<close>

text \<open>
  Every effect run but the latest has been cleaned up, and after the unmount
  the latest has been too.
\<close>

definition cleaned_up :: "sub_hook \<Rightarrow> bool" where
  "cleaned_up h =
     ((\<forall>e \<in> set (butlast (effects h)). \<not> mounted e) \<and>
      (unmounted h \<longrightarrow> (\<forall>e \<in> set (effects h). \<not> mounted e)))"

section \<open>Properties of \<^verbatim>\<open>addService\<close>\<close>

lemma addService_rejected:
  "\<not> truthy_str (category_id (newService st)) \<or>
   \<not> truthy_str (subcategory_id (newService st)) \<or>
   \<not> truthy_str (description (newService st)) \<or>
   \<not> truthy_num (rate (newService st)) \<Longrightarrow>
   addService st = st\<lparr>toasts := toasts st @ [ToastError ''Please fill in all service fields'']\<rparr>"
  unfolding addService_def by (simp only: if_True)

lemma addService_accepted:
  "truthy_str (category_id (newService st)) \<Longrightarrow>
   truthy_str (subcategory_id (newService st)) \<Longrightarrow>
   truthy_str (description (newService st)) \<Longrightarrow>
   truthy_num (rate (newService st)) \<Longrightarrow>
   addService st = st\<lparr>services := services st @ [newService st], newService := emptyService\<rparr>"
  unfolding addService_def by simp

lemma truthy_num_iff: "truthy_num n = (n \<noteq> NaN \<and> n \<noteq> Num 0)"
  by (cases n) (simp_all add: truthy_num_def)

lemma example_page_simps:
  "newService (example_page ns) = ns" "services (example_page ns) = []"
  "categories (example_page ns) = example_categories"
  "subcategories (example_page ns) = example_subcategories"
  "toasts (example_page ns) = []" "calls (example_page ns) = []"
  "user (example_page ns) = Some example_user"
  by (simp_all add: example_page_def initial_page_def)

lemma example_draft_simps:
  "category_id (example_draft r) = ''c1''" "subcategory_id (example_draft r) = ''s1''"
  "description (example_draft r) = ''Landing pages''" "rate (example_draft r) = r"
  by (simp_all add: example_draft_def)

lemma positive_rate_accepted:
  assumes "category_id (newService st) \<noteq> []"
    and "subcategory_id (newService st) \<noteq> []"
    and "description (newService st) \<noteq> []"
    and "rate (newService st) = Num r" and "0 < r"
  shows "addService st =
           st\<lparr>services := services st @ [newService st], newService := emptyService\<rparr>"
  using assms by (intro addService_accepted) (simp_all add: truthy_str_def truthy_num_def)

lemma zero_rate_rejected:
  assumes "rate (newService st) = Num 0"
  shows "addService st =
           st\<lparr>toasts := toasts st @ [ToastError ''Please fill in all service fields'']\<rparr>"
  using assms by (intro addService_rejected) (simp add: truthy_num_def)

text \<open>
  C1, as stated: a draft with the three text fields filled and a rate of exactly 0
  is accepted into the list. It is not: \<^verbatim>\<open>!newService.rate\<close> holds for 0, so the
  entry is rejected with the notification and the list stays as it was.
\<close>

theorem C1_rate_zero_counterexample:
  "category_id (newService (example_page (example_draft (Num 0)))) \<noteq> [] \<and>
   subcategory_id (newService (example_page (example_draft (Num 0)))) \<noteq> [] \<and>
   description (newService (example_page (example_draft (Num 0)))) \<noteq> [] \<and>
   rate (newService (example_page (example_draft (Num 0)))) = Num 0 \<and>
   services (addService (example_page (example_draft (Num 0)))) = [] \<and>
   toasts (addService (example_page (example_draft (Num 0)))) =
     [ToastError ''Please fill in all service fields'']"
  by (simp add: addService_def example_page_def example_draft_def initial_page_def
      truthy_str_def truthy_num_def)

text \<open>
  C1, amended: with the three text fields filled, \<^verbatim>\<open>addService\<close> accepts a draft
  whose rate is a positive number and appends it to the list; a rate of exactly
  0, the value the form starts from and is reset to, is treated as a field left
  unfilled: the draft is rejected with the notification and the list stays as it
  was.
\<close>

theorem C1_positive_rate_accepted_zero_rejected:
  assumes "category_id (newService st) \<noteq> []"
    and "subcategory_id (newService st) \<noteq> []"
    and "description (newService st) \<noteq> []"
  shows "(\<forall>r. rate (newService st) = Num r \<and> 0 < r \<longrightarrow>
            services (addService st) = services st @ [newService st]) \<and>
         (rate (newService st) = Num 0 \<longrightarrow>
            services (addService st) = services st \<and>
            toasts (addService st) =
              toasts st @ [ToastError ''Please fill in all service fields''])"
proof (intro conjI allI impI)
  fix r assume "rate (newService st) = Num r \<and> 0 < r"
  then have "addService st =
      st\<lparr>services := services st @ [newService st], newService := emptyService\<rparr>"
    using assms by (intro positive_rate_accepted [of st r]) simp_all
  then show "services (addService st) = services st @ [newService st]" by simp
next
  assume "rate (newService st) = Num 0"
  then have run: "addService st =
      st\<lparr>toasts := toasts st @ [ToastError ''Please fill in all service fields'']\<rparr>"
    by (rule zero_rate_rejected)
  show "services (addService st) = services st" by (simp add: run)
  show "toasts (addService st) =
      toasts st @ [ToastError ''Please fill in all service fields'']"
    by (simp add: run)
qed

theorem C1_positive_rate_accepted_zero_rejected_witness:
  "services (addService (example_page (example_draft (Num 25)))) = [example_draft (Num 25)] \<and>
   services (addService (example_page (example_draft (Num 0)))) = [] \<and>
   toasts (addService (example_page (example_draft (Num 0)))) =
     [ToastError ''Please fill in all service fields'']"
proof -
  let ?a = "example_page (example_draft (Num 25))"
  let ?z = "example_page (example_draft (Num 0))"
  have ha: "category_id (newService ?a) \<noteq> []" "subcategory_id (newService ?a) \<noteq> []"
    "description (newService ?a) \<noteq> []"
    by (simp_all add: example_page_simps example_draft_simps)
  have hz: "category_id (newService ?z) \<noteq> []" "subcategory_id (newService ?z) \<noteq> []"
    "description (newService ?z) \<noteq> []"
    by (simp_all add: example_page_simps example_draft_simps)
  have ra: "rate (newService ?a) = Num 25 \<and> (0::real) < 25"
    by (simp add: example_page_simps example_draft_simps)
  have rz: "rate (newService ?z) = Num 0"
    by (simp add: example_page_simps example_draft_simps)
  from C1_positive_rate_accepted_zero_rejected [OF ha, THEN conjunct1, rule_format, OF ra]
  have 1: "services (addService ?a) = [example_draft (Num 25)]"
    by (simp add: example_page_simps)
  from C1_positive_rate_accepted_zero_rejected [OF hz, THEN conjunct2, rule_format, OF rz]
  have 2: "services (addService ?z) = [] \<and>
      toasts (addService ?z) = [ToastError ''Please fill in all service fields'']"
    by (simp add: example_page_simps)
  from 1 2 show ?thesis by blast
qed

text \<open>
  C2: when a required field of the form is missing (an empty category,
  subcategory or description, or a rate that is 0 or NaN), \<^verbatim>\<open>addService\<close> leaves
  the draft list and every other cell of the page as they were, sends nothing to
  the backend, and raises exactly one error notification.
\<close>

theorem C2_missing_field_rejected:
  assumes "category_id (newService st) = [] \<or> subcategory_id (newService st) = [] \<or>
           description (newService st) = [] \<or>
           rate (newService st) = Num 0 \<or> rate (newService st) = NaN"
  shows "addService st =
           st\<lparr>toasts := toasts st @ [ToastError ''Please fill in all service fields'']\<rparr> \<and>
         services (addService st) = services st \<and>
         calls (addService st) = calls st"
proof -
  from assms have "\<not> truthy_str (category_id (newService st)) \<or>
      \<not> truthy_str (subcategory_id (newService st)) \<or>
      \<not> truthy_str (description (newService st)) \<or>
      \<not> truthy_num (rate (newService st))"
    by (auto simp: truthy_str_def truthy_num_iff)
  then have "addService st =
      st\<lparr>toasts := toasts st @ [ToastError ''Please fill in all service fields'']\<rparr>"
    by (rule addService_rejected)
  then show ?thesis by simp
qed

theorem C2_missing_field_rejected_witness:
  "addService (example_page ((example_draft (Num 25))\<lparr>description := []\<rparr>)) =
     (example_page ((example_draft (Num 25))\<lparr>description := []\<rparr>))
       \<lparr>toasts := [ToastError ''Please fill in all service fields'']\<rparr> \<and>
   services (addService (example_page ((example_draft (Num 25))\<lparr>description := []\<rparr>))) = [] \<and>
   calls (addService (example_page ((example_draft (Num 25))\<lparr>description := []\<rparr>))) = []"
  using C2_missing_field_rejected
    [of "example_page ((example_draft (Num 25))\<lparr>description := []\<rparr>)"]
  by (simp add: example_page_def example_draft_def initial_page_def)

section \<open>Name lookup and the appended entry\<close>

lemma getCategoryName_absent:
  "categoryId \<notin> cat_id ` set cs \<Longrightarrow> getCategoryName cs categoryId = []"
proof -
  assume "categoryId \<notin> cat_id ` set cs"
  then have "find (\<lambda>c. cat_id c = categoryId) cs = None"
    by (auto simp: find_None_iff)
  then show ?thesis by (simp add: getCategoryName_def)
qed

lemma getCategoryName_found:
  "find (\<lambda>c. cat_id c = categoryId) cs = Some c \<Longrightarrow> getCategoryName cs categoryId = cat_name c"
  by (simp add: getCategoryName_def truthy_str_def)

lemma getSubcategoryName_absent:
  "subcategoryId \<notin> sub_id ` set ss \<Longrightarrow> getSubcategoryName ss subcategoryId = []"
proof -
  assume "subcategoryId \<notin> sub_id ` set ss"
  then have "find (\<lambda>s. sub_id s = subcategoryId) ss = None"
    by (auto simp: find_None_iff)
  then show ?thesis by (simp add: getSubcategoryName_def)
qed

lemma getSubcategoryName_found:
  "find (\<lambda>s. sub_id s = subcategoryId) ss = Some s \<Longrightarrow>
   getSubcategoryName ss subcategoryId = sub_name s"
  by (simp add: getSubcategoryName_def truthy_str_def)

lemma appended_entry:
  assumes eq: "addService st =
      st\<lparr>services := services st @ [newService st], newService := emptyService\<rparr>"
  shows "services (addService st) = services st @ [newService st] \<and>
         length (services (addService st)) = Suc (length (services st)) \<and>
         displayed_names (addService st) (last (services (addService st))) =
           (getCategoryName (categories st) (category_id (newService st)),
            getSubcategoryName (subcategories st) (subcategory_id (newService st))) \<and>
         (category_id (newService st) \<notin> cat_id ` set (categories st) \<longrightarrow>
            fst (displayed_names (addService st) (last (services (addService st)))) = []) \<and>
         (subcategory_id (newService st) \<notin> sub_id ` set (subcategories st) \<longrightarrow>
            snd (displayed_names (addService st) (last (services (addService st)))) = []) \<and>
         (\<forall>c. find (\<lambda>c. cat_id c = category_id (newService st)) (categories st) = Some c \<longrightarrow>
            fst (displayed_names (addService st) (last (services (addService st)))) = cat_name c) \<and>
         (\<forall>s. find (\<lambda>s. sub_id s = subcategory_id (newService st)) (subcategories st) = Some s \<longrightarrow>
            snd (displayed_names (addService st) (last (services (addService st)))) = sub_name s)"
proof -
  have d: "displayed_names (addService st) (last (services (addService st))) =
           (getCategoryName (categories st) (category_id (newService st)),
            getSubcategoryName (subcategories st) (subcategory_id (newService st)))"
    by (simp add: eq displayed_names_def)
  show ?thesis
    unfolding d
    by (simp add: eq getCategoryName_absent getCategoryName_found
        getSubcategoryName_absent getSubcategoryName_found)
qed

text \<open>
  C8, as stated: every submission with all required fields present leaves the
  list with one more entry. A rate of exactly 0 is a numeric rate that is present
  and not negative, yet with the three text fields filled the submission appends
  nothing: the list is as long as before.
\<close>

theorem C8_rate_zero_counterexample:
  "category_id (newService (example_page (example_draft (Num 0)))) = ''c1'' \<and>
   subcategory_id (newService (example_page (example_draft (Num 0)))) = ''s1'' \<and>
   description (newService (example_page (example_draft (Num 0)))) = ''Landing pages'' \<and>
   rate (newService (example_page (example_draft (Num 0)))) = Num 0 \<and>
   length (services (addService (example_page (example_draft (Num 0))))) =
     length (services (example_page (example_draft (Num 0)))) \<and>
   example_draft (Num 0) \<notin> set (services (addService (example_page (example_draft (Num 0)))))"
  by (simp add: zero_rate_rejected example_page_simps example_draft_simps)

text \<open>
  C8, amended: a submission whose category, subcategory and description are
  non-empty and whose rate is a positive number appends the submitted draft at
  the end of the list, which grows by exactly one entry; the heading rendered
  for the new entry shows the names found by id in the category and subcategory
  lists the page holds (the first match), and the empty string for an id that
  occurs in neither. A submission whose rate is exactly 0 is treated as
  unfilled and leaves the list as it was.
\<close>

theorem C8_positive_rate_submission_appends:
  assumes "category_id (newService st) \<noteq> []"
    and "subcategory_id (newService st) \<noteq> []"
    and "description (newService st) \<noteq> []"
  shows "(\<forall>r. rate (newService st) = Num r \<and> 0 < r \<longrightarrow>
           services (addService st) = services st @ [newService st] \<and>
           length (services (addService st)) = Suc (length (services st)) \<and>
           displayed_names (addService st) (last (services (addService st))) =
             (getCategoryName (categories st) (category_id (newService st)),
              getSubcategoryName (subcategories st) (subcategory_id (newService st))) \<and>
           (category_id (newService st) \<notin> cat_id ` set (categories st) \<longrightarrow>
              fst (displayed_names (addService st) (last (services (addService st)))) = []) \<and>
           (subcategory_id (newService st) \<notin> sub_id ` set (subcategories st) \<longrightarrow>
              snd (displayed_names (addService st) (last (services (addService st)))) = []) \<and>
           (\<forall>c. find (\<lambda>c. cat_id c = category_id (newService st)) (categories st) = Some c \<longrightarrow>
              fst (displayed_names (addService st) (last (services (addService st)))) =
                cat_name c) \<and>
           (\<forall>s. find (\<lambda>s. sub_id s = subcategory_id (newService st)) (subcategories st) =
                  Some s \<longrightarrow>
              snd (displayed_names (addService st) (last (services (addService st)))) =
                sub_name s)) \<and>
         (rate (newService st) = Num 0 \<longrightarrow> services (addService st) = services st)"
proof (rule conjI)
  show "rate (newService st) = Num 0 \<longrightarrow> services (addService st) = services st"
    by (simp add: zero_rate_rejected)
next
  show "\<forall>r. rate (newService st) = Num r \<and> 0 < r \<longrightarrow>
           services (addService st) = services st @ [newService st] \<and>
           length (services (addService st)) = Suc (length (services st)) \<and>
           displayed_names (addService st) (last (services (addService st))) =
             (getCategoryName (categories st) (category_id (newService st)),
              getSubcategoryName (subcategories st) (subcategory_id (newService st))) \<and>
           (category_id (newService st) \<notin> cat_id ` set (categories st) \<longrightarrow>
              fst (displayed_names (addService st) (last (services (addService st)))) = []) \<and>
           (subcategory_id (newService st) \<notin> sub_id ` set (subcategories st) \<longrightarrow>
              snd (displayed_names (addService st) (last (services (addService st)))) = []) \<and>
           (\<forall>c. find (\<lambda>c. cat_id c = category_id (newService st)) (categories st) = Some c \<longrightarrow>
              fst (displayed_names (addService st) (last (services (addService st)))) =
                cat_name c) \<and>
           (\<forall>s. find (\<lambda>s. sub_id s = subcategory_id (newService st)) (subcategories st) =
                  Some s \<longrightarrow>
              snd (displayed_names (addService st) (last (services (addService st)))) =
                sub_name s)"
  proof (intro allI impI)
    fix r assume "rate (newService st) = Num r \<and> 0 < r"
    then have "addService st =
        st\<lparr>services := services st @ [newService st], newService := emptyService\<rparr>"
      using assms by (intro positive_rate_accepted [of st r]) simp_all
    then show "services (addService st) = services st @ [newService st] \<and>
           length (services (addService st)) = Suc (length (services st)) \<and>
           displayed_names (addService st) (last (services (addService st))) =
             (getCategoryName (categories st) (category_id (newService st)),
              getSubcategoryName (subcategories st) (subcategory_id (newService st))) \<and>
           (category_id (newService st) \<notin> cat_id ` set (categories st) \<longrightarrow>
              fst (displayed_names (addService st) (last (services (addService st)))) = []) \<and>
           (subcategory_id (newService st) \<notin> sub_id ` set (subcategories st) \<longrightarrow>
              snd (displayed_names (addService st) (last (services (addService st)))) = []) \<and>
           (\<forall>c. find (\<lambda>c. cat_id c = category_id (newService st)) (categories st) = Some c \<longrightarrow>
              fst (displayed_names (addService st) (last (services (addService st)))) =
                cat_name c) \<and>
           (\<forall>s. find (\<lambda>s. sub_id s = subcategory_id (newService st)) (subcategories st) =
                  Some s \<longrightarrow>
              snd (displayed_names (addService st) (last (services (addService st)))) =
                sub_name s)"
      by (rule appended_entry)
  qed
qed

theorem C8_positive_rate_submission_appends_witness:
  "services (addService (example_page (example_draft (Num 25)))) = [example_draft (Num 25)] \<and>
   length (services (addService (example_page (example_draft (Num 25))))) = 1 \<and>
   displayed_names (addService (example_page (example_draft (Num 25))))
     (last (services (addService (example_page (example_draft (Num 25)))))) =
     (''Web Development'', ''Frontend Development'') \<and>
   services (addService (example_page (example_draft (Num 0)))) = []"
proof -
  let ?st = "example_page (example_draft (Num 25))"
  let ?z = "example_page (example_draft (Num 0))"
  have h: "category_id (newService ?st) \<noteq> []" "subcategory_id (newService ?st) \<noteq> []"
    "description (newService ?st) \<noteq> []"
    by (simp_all add: example_page_simps example_draft_simps)
  have hz: "category_id (newService ?z) \<noteq> []" "subcategory_id (newService ?z) \<noteq> []"
    "description (newService ?z) \<noteq> []"
    by (simp_all add: example_page_simps example_draft_simps)
  have r: "rate (newService ?st) = Num 25 \<and> (0::real) < 25"
    by (simp add: example_page_simps example_draft_simps)
  have rz: "rate (newService ?z) = Num 0"
    by (simp add: example_page_simps example_draft_simps)
  have n: "getCategoryName example_categories ''c1'' = ''Web Development''"
    "getSubcategoryName example_subcategories ''s1'' = ''Frontend Development''"
    by (simp_all add: getCategoryName_def getSubcategoryName_def example_categories_def
        example_subcategories_def truthy_str_def)
  note t = C8_positive_rate_submission_appends [OF h, THEN conjunct1, rule_format, OF r]
  have 1: "services (addService ?st) = [example_draft (Num 25)]"
    using t [THEN conjunct1] by (simp add: example_page_simps)
  have 2: "displayed_names (addService ?st) (last (services (addService ?st))) =
      (''Web Development'', ''Frontend Development'')"
    using t [THEN conjunct2, THEN conjunct2, THEN conjunct1]
    by (simp only: example_page_simps example_draft_simps n)
  from C8_positive_rate_submission_appends [OF hz, THEN conjunct2, rule_format, OF rz]
  have 3: "services (addService ?z) = []"
    by (simp add: example_page_simps)
  show ?thesis
    unfolding 2 by (simp add: 1 3)
qed

section \<open>The bulk save\<close>

lemma save_loop_all_ok:
  "\<forall>k<length ss. be (calls st @ map (service_call uid) (take k ss))
                      (service_call uid (ss ! k)) = None \<Longrightarrow>
   save_loop be uid ss st = (None, st\<lparr>calls := calls st @ map (service_call uid) ss\<rparr>)"
proof (induction ss arbitrary: st)
  case Nil
  show ?case by simp
next
  case (Cons s ss)
  from Cons.prems have first: "be (calls st) (service_call uid s) = None"
    by (auto dest: spec [of _ 0])
  have rest: "\<forall>k<length ss.
      be (calls (st\<lparr>calls := calls st @ [service_call uid s]\<rparr>) @
          map (service_call uid) (take k ss)) (service_call uid (ss ! k)) = None"
  proof (intro allI impI)
    fix k assume "k < length ss"
    with Cons.prems have "be (calls st @ map (service_call uid) (take (Suc k) (s # ss)))
        (service_call uid ((s # ss) ! Suc k)) = None"
      by (metis Suc_less_eq length_Cons)
    then show "be (calls (st\<lparr>calls := calls st @ [service_call uid s]\<rparr>) @
          map (service_call uid) (take k ss)) (service_call uid (ss ! k)) = None"
      by simp
  qed
  show ?case
    by (simp add: send_def first Cons.IH [OF rest])
qed

lemma save_loop_first_error:
  "k < length ss \<Longrightarrow>
   \<forall>j<k. be (calls st @ map (service_call uid) (take j ss))
            (service_call uid (ss ! j)) = None \<Longrightarrow>
   be (calls st @ map (service_call uid) (take k ss)) (service_call uid (ss ! k)) = Some e \<Longrightarrow>
   save_loop be uid ss st =
     (Some e, st\<lparr>calls := calls st @ map (service_call uid) (take (Suc k) ss)\<rparr>)"
proof (induction ss arbitrary: st k)
  case Nil
  then show ?case by simp
next
  case (Cons s ss)
  show ?case
  proof (cases k)
    case 0
    with Cons.prems show ?thesis by (simp add: send_def)
  next
    case (Suc k')
    with Cons.prems have first: "be (calls st) (service_call uid s) = None"
      by (auto dest: spec [of _ 0])
    let ?st = "st\<lparr>calls := calls st @ [service_call uid s]\<rparr>"
    from Suc Cons.prems have len: "k' < length ss" by simp
    have ok: "\<forall>j<k'. be (calls ?st @ map (service_call uid) (take j ss))
                (service_call uid (ss ! j)) = None"
    proof (intro allI impI)
      fix j assume "j < k'"
      then have "Suc j < k" using Suc by simp
      with Cons.prems have "be (calls st @ map (service_call uid) (take (Suc j) (s # ss)))
          (service_call uid ((s # ss) ! Suc j)) = None"
        by blast
      then show "be (calls ?st @ map (service_call uid) (take j ss))
                (service_call uid (ss ! j)) = None"
        by simp
    qed
    from Suc Cons.prems
    have err: "be (calls ?st @ map (service_call uid) (take k' ss))
                (service_call uid (ss ! k')) = Some e"
      by simp
    show ?thesis
      by (simp add: send_def first Suc Cons.IH [OF len ok err])
  qed
qed

text \<open>
  C4, as stated: the bulk save persists every entry of the draft list. It does
  not when the backend answers a request with an error: the error is thrown out
  of the loop, and the entries after it are never sent. Here the list holds two
  entries and only the first request is issued.
\<close>

theorem C4_every_entry_counterexample:
  "user example_services_page = Some example_user \<and>
   services example_services_page = [example_draft (Num 25), example_saved] \<and>
   calls (handleSaveServices failing_backend example_services_page) =
     [ServiceInsert ''u1'' (payload_of (example_draft (Num 25)))] \<and>
   toasts (handleSaveServices failing_backend example_services_page) =
     [ToastError ''permission denied'']"
  by (simp add: handleSaveServices_def example_services_page_def initial_page_def
      example_user_def send_def failing_backend_def caught_def service_call_def
      example_draft_def)

text \<open>
  C4, amended: with a user signed in, as long as the backend answers every
  request of the run without an error, the bulk save issues exactly one request
  per entry of the draft list, in list order, and reports success; the run stops
  at the first request answered with an error, whose message is shown, and sends
  nothing for the entries after it. The request for an entry is an update keyed
  on its id when the id is present and non-empty, and otherwise an insert that
  carries the acting user's id.
\<close>

theorem C4_bulk_save:
  assumes "user st = Some u"
  shows "((\<forall>k<length (services st).
             be (calls st @ map (service_call (u_id u)) (take k (services st)))
                (service_call (u_id u) (services st ! k)) = None) \<longrightarrow>
          calls (handleSaveServices be st) =
            calls st @ map (service_call (u_id u)) (services st) \<and>
          toasts (handleSaveServices be st) =
            toasts st @ [ToastSuccess ''Services updated successfully!'']) \<and>
         (\<forall>k e. k < length (services st) \<and>
             (\<forall>j<k. be (calls st @ map (service_call (u_id u)) (take j (services st)))
                       (service_call (u_id u) (services st ! j)) = None) \<and>
             be (calls st @ map (service_call (u_id u)) (take k (services st)))
                (service_call (u_id u) (services st ! k)) = Some e \<longrightarrow>
             calls (handleSaveServices be st) =
               calls st @ map (service_call (u_id u)) (take (Suc k) (services st)) \<and>
             toasts (handleSaveServices be st) = toasts st @ [ToastError (message e)]) \<and>
         (\<forall>s i. service_id s = Some i \<and> i \<noteq> [] \<longrightarrow>
             service_call (u_id u) s = ServiceUpdate (payload_of s) i) \<and>
         (\<forall>s. service_id s = None \<or> service_id s = Some [] \<longrightarrow>
             service_call (u_id u) s = ServiceInsert (u_id u) (payload_of s))"
proof (intro conjI allI impI)
  assume ok: "\<forall>k<length (services st).
      be (calls st @ map (service_call (u_id u)) (take k (services st)))
         (service_call (u_id u) (services st ! k)) = None"
  then have "\<forall>k<length (services st).
      be (calls (st\<lparr>loading := True\<rparr>) @ map (service_call (u_id u)) (take k (services st)))
         (service_call (u_id u) (services st ! k)) = None"
    by simp
  from save_loop_all_ok [OF this]
  have run: "handleSaveServices be st =
      st\<lparr>loading := True, calls := calls st @ map (service_call (u_id u)) (services st),
         toasts := toasts st @ [ToastSuccess ''Services updated successfully!''],
         loading := False\<rparr>"
    by (simp add: handleSaveServices_def assms)
  show "calls (handleSaveServices be st) =
      calls st @ map (service_call (u_id u)) (services st)"
    by (simp add: run)
  show "toasts (handleSaveServices be st) =
      toasts st @ [ToastSuccess ''Services updated successfully!'']"
    by (simp add: run)
next
  fix k e
  assume a: "k < length (services st) \<and>
      (\<forall>j<k. be (calls st @ map (service_call (u_id u)) (take j (services st)))
                (service_call (u_id u) (services st ! j)) = None) \<and>
      be (calls st @ map (service_call (u_id u)) (take k (services st)))
         (service_call (u_id u) (services st ! k)) = Some e"
  then have len: "k < length (services st)"
    and ok: "\<forall>j<k. be (calls (st\<lparr>loading := True\<rparr>) @
                        map (service_call (u_id u)) (take j (services st)))
                (service_call (u_id u) (services st ! j)) = None"
    and err: "be (calls (st\<lparr>loading := True\<rparr>) @
                  map (service_call (u_id u)) (take k (services st)))
         (service_call (u_id u) (services st ! k)) = Some e"
    by simp_all
  from save_loop_first_error [OF len ok err]
  have run: "handleSaveServices be st =
      caught e (st\<lparr>loading := True,
                   calls := calls st @ map (service_call (u_id u)) (take (Suc k) (services st))\<rparr>)"
    by (simp add: handleSaveServices_def assms)
  show "calls (handleSaveServices be st) =
      calls st @ map (service_call (u_id u)) (take (Suc k) (services st))"
    by (simp add: run caught_def)
  show "toasts (handleSaveServices be st) = toasts st @ [ToastError (message e)]"
    by (simp add: run caught_def)
next
  fix s :: Service and i assume "service_id s = Some i \<and> i \<noteq> []"
  then show "service_call (u_id u) s = ServiceUpdate (payload_of s) i"
    by (simp add: service_call_def truthy_str_def)
next
  fix s :: Service assume "service_id s = None \<or> service_id s = Some []"
  then show "service_call (u_id u) s = ServiceInsert (u_id u) (payload_of s)"
    by (auto simp: service_call_def truthy_str_def)
qed

theorem C4_bulk_save_witness:
  "calls (handleSaveServices ok_backend example_services_page) =
     [ServiceInsert ''u1'' (payload_of (example_draft (Num 25))),
      ServiceUpdate (payload_of example_saved) ''sv1''] \<and>
   toasts (handleSaveServices ok_backend example_services_page) =
     [ToastSuccess ''Services updated successfully!'']"
proof -
  have u: "user example_services_page = Some example_user"
    by (simp add: example_services_page_def initial_page_def)
  have s: "services example_services_page = [example_draft (Num 25), example_saved]"
    "calls example_services_page = []" "toasts example_services_page = []"
    by (simp_all add: example_services_page_def initial_page_def)
  have c: "service_call ''u1'' (example_draft (Num 25)) =
             ServiceInsert ''u1'' (payload_of (example_draft (Num 25)))"
    "service_call ''u1'' example_saved = ServiceUpdate (payload_of example_saved) ''sv1''"
    by (simp_all add: service_call_def example_draft_def example_saved_def truthy_str_def)
  have i: "u_id example_user = ''u1''" by (simp add: example_user_def)
  from C4_bulk_save [OF u, of ok_backend, THEN conjunct1] show ?thesis
    by (simp add: ok_backend_def s c i)
qed

section \<open>The profile form\<close>

lemma keys_length_zero_iff:
  "(keys_length (build_profileUpdates st) > 0) = (name st \<noteq> [] \<or> email st \<noteq> [] \<or> bio st \<noteq> [])"
  by (simp add: keys_length_def build_profileUpdates_def truthy_str_def)

lemma handleSubmit_user_update_first:
  assumes "user st = Some u" and "name st \<noteq> [] \<or> email st \<noteq> [] \<or> bio st \<noteq> []"
  shows "\<exists>rest. calls (handleSubmit be st) =
            calls st @ UserUpdate (build_profileUpdates st) (u_id u) # rest \<and>
          (rest = [] \<or> rest = [AuthUpdateUser (or_undefined (email st)) (or_undefined (name st))])"
proof -
  have b: "build_profileUpdates (st\<lparr>loading := True\<rparr>) = build_profileUpdates st"
    by (simp add: build_profileUpdates_def)
  from assms(2) have k: "keys_length (build_profileUpdates st) > 0"
    by (simp add: keys_length_zero_iff)
  show ?thesis
    using k
    by (simp add: handleSubmit_def assms(1) Let_def b send_def caught_def submit_succeeded_def
        split: option.split)
qed

text \<open>
  C10, as stated: a submission with name, email and bio all empty still reports
  success and navigates away. Without a signed-in user it does not:
  \<^verbatim>\<open>if (!user) return\<close> leaves the handler before anything is reported.
\<close>

theorem C10_no_user_counterexample:
  "name (initial_page None) = [] \<and> email (initial_page None) = [] \<and>
   bio (initial_page None) = [] \<and>
   calls (handleSubmit ok_backend (initial_page None)) = [] \<and>
   toasts (handleSubmit ok_backend (initial_page None)) = [] \<and>
   routes (handleSubmit ok_backend (initial_page None)) = []"
  by (simp add: handleSubmit_def initial_page_def)

lemma handleSubmit_signed_in:
  assumes "user st = Some u"
  shows "(name st = [] \<and> email st = [] \<and> bio st = [] \<longrightarrow>
            handleSubmit be st =
              st\<lparr>toasts := toasts st @ [ToastSuccess ''Profile updated successfully!''],
                 routes := routes st @ [''/''], loading := False\<rparr> \<and>
            calls (handleSubmit be st) = calls st \<and>
            user (handleSubmit be st) = user st) \<and>
         (name st \<noteq> [] \<or> email st \<noteq> [] \<or> bio st \<noteq> [] \<longrightarrow>
            (\<exists>rest. calls (handleSubmit be st) =
               calls st @
               UserUpdate \<lparr>pu_name = (if name st = [] then None else Some (name st)),
                           pu_email = (if email st = [] then None else Some (email st)),
                           pu_bio = (if bio st = [] then None else Some (bio st))\<rparr>
                          (u_id u) # rest \<and>
               (rest = [] \<or>
                rest = [AuthUpdateUser (if email st = [] then None else Some (email st))
                                       (if name st = [] then None else Some (name st))])))"
proof (intro conjI impI)
  assume e: "name st = [] \<and> email st = [] \<and> bio st = []"
  then have "\<not> keys_length (build_profileUpdates (st\<lparr>loading := True\<rparr>)) > 0"
    by (simp add: keys_length_zero_iff)
  then have run: "handleSubmit be st =
      st\<lparr>toasts := toasts st @ [ToastSuccess ''Profile updated successfully!''],
         routes := routes st @ [''/''], loading := False\<rparr>"
    by (simp add: handleSubmit_def assms Let_def submit_succeeded_def)
  show "handleSubmit be st =
      st\<lparr>toasts := toasts st @ [ToastSuccess ''Profile updated successfully!''],
         routes := routes st @ [''/''], loading := False\<rparr>"
    by (rule run)
  show "calls (handleSubmit be st) = calls st" by (simp add: run)
  show "user (handleSubmit be st) = user st" by (simp add: run)
next
  have b: "build_profileUpdates st =
      \<lparr>pu_name = or_undefined (name st), pu_email = or_undefined (email st),
       pu_bio = or_undefined (bio st)\<rparr>"
    by (simp add: build_profileUpdates_def or_undefined_def)
  have o: "\<And>s. (if s = [] then None else Some s) = or_undefined s"
    by (simp add: or_undefined_def truthy_str_def)
  assume "name st \<noteq> [] \<or> email st \<noteq> [] \<or> bio st \<noteq> []"
  from handleSubmit_user_update_first [OF assms this, of be]
  show "\<exists>rest. calls (handleSubmit be st) =
               calls st @
               UserUpdate \<lparr>pu_name = (if name st = [] then None else Some (name st)),
                           pu_email = (if email st = [] then None else Some (email st)),
                           pu_bio = (if bio st = [] then None else Some (bio st))\<rparr>
                          (u_id u) # rest \<and>
               (rest = [] \<or>
                rest = [AuthUpdateUser (if email st = [] then None else Some (email st))
                                       (if name st = [] then None else Some (name st))])"
    unfolding o b .
qed

text \<open>
  C10, amended: with a user signed in, a submission with name, email and bio all
  empty sends nothing to the backend and leaves the stored user as it is, yet it
  raises the success notification and pushes the route \<^verbatim>\<open>/\<close>; when at least one
  field is non-empty, the first request is the profile update whose payload
  holds exactly the non-empty fields, followed by at most the auth update. With
  no user signed in the handler returns at once: the page is left exactly as it
  was, so nothing is sent and nothing is reported.
\<close>

theorem C10_profile_submit:
  "(user st = None \<longrightarrow> handleSubmit be st = st) \<and>
   (user st = Some u \<longrightarrow>
      (name st = [] \<and> email st = [] \<and> bio st = [] \<longrightarrow>
         handleSubmit be st =
           st\<lparr>toasts := toasts st @ [ToastSuccess ''Profile updated successfully!''],
              routes := routes st @ [''/''], loading := False\<rparr> \<and>
         calls (handleSubmit be st) = calls st \<and>
         user (handleSubmit be st) = user st) \<and>
      (name st \<noteq> [] \<or> email st \<noteq> [] \<or> bio st \<noteq> [] \<longrightarrow>
         (\<exists>rest. calls (handleSubmit be st) =
            calls st @
            UserUpdate \<lparr>pu_name = (if name st = [] then None else Some (name st)),
                        pu_email = (if email st = [] then None else Some (email st)),
                        pu_bio = (if bio st = [] then None else Some (bio st))\<rparr>
                       (u_id u) # rest \<and>
            (rest = [] \<or>
             rest = [AuthUpdateUser (if email st = [] then None else Some (email st))
                                    (if name st = [] then None else Some (name st))]))))"
proof (intro conjI)
  show "user st = None \<longrightarrow> handleSubmit be st = st"
    by (simp add: handleSubmit_def)
next
  show "user st = Some u \<longrightarrow>
      (name st = [] \<and> email st = [] \<and> bio st = [] \<longrightarrow>
         handleSubmit be st =
           st\<lparr>toasts := toasts st @ [ToastSuccess ''Profile updated successfully!''],
              routes := routes st @ [''/''], loading := False\<rparr> \<and>
         calls (handleSubmit be st) = calls st \<and>
         user (handleSubmit be st) = user st) \<and>
      (name st \<noteq> [] \<or> email st \<noteq> [] \<or> bio st \<noteq> [] \<longrightarrow>
         (\<exists>rest. calls (handleSubmit be st) =
            calls st @
            UserUpdate \<lparr>pu_name = (if name st = [] then None else Some (name st)),
                        pu_email = (if email st = [] then None else Some (email st)),
                        pu_bio = (if bio st = [] then None else Some (bio st))\<rparr>
                       (u_id u) # rest \<and>
            (rest = [] \<or>
             rest = [AuthUpdateUser (if email st = [] then None else Some (email st))
                                    (if name st = [] then None else Some (name st))])))"
    by (rule impI) (rule handleSubmit_signed_in)
qed

theorem C10_profile_submit_witness:
  "handleSubmit ok_backend ((initial_page None)\<lparr>bio := ''Hello''\<rparr>) =
     (initial_page None)\<lparr>bio := ''Hello''\<rparr> \<and>
   handleSubmit failing_backend (initial_page (Some example_user)) =
     (initial_page (Some example_user))
       \<lparr>toasts := [ToastSuccess ''Profile updated successfully!''], routes := [''/'']\<rparr> \<and>
   calls (handleSubmit failing_backend (initial_page (Some example_user))) = [] \<and>
   calls (handleSubmit ok_backend ((initial_page (Some example_user))\<lparr>bio := ''Hello''\<rparr>)) =
     [UserUpdate \<lparr>pu_name = None, pu_email = None, pu_bio = Some ''Hello''\<rparr> ''u1'']"
proof -
  let ?n = "(initial_page None)\<lparr>bio := ''Hello''\<rparr>"
  let ?e = "initial_page (Some example_user)"
  let ?b = "(initial_page (Some example_user))\<lparr>bio := ''Hello''\<rparr>"
  have u: "user ?n = None" "user ?e = Some example_user" "user ?b = Some example_user"
    by (simp_all add: initial_page_def)
  have f: "name ?e = []" "email ?e = []" "bio ?e = []" "calls ?e = []" "toasts ?e = []"
    "routes ?e = []" "name ?b = []" "email ?b = []" "bio ?b = ''Hello''" "calls ?b = []"
    by (simp_all add: initial_page_def)
  have i: "u_id example_user = ''u1''" by (simp add: example_user_def)
  from C10_profile_submit [of ?n ok_backend, THEN conjunct1, rule_format, OF u(1)]
  have 0: "handleSubmit ok_backend ?n = ?n" .
  from C10_profile_submit [of ?e failing_backend example_user, THEN conjunct2, rule_format,
      OF u(2), THEN conjunct1]
  have 1: "handleSubmit failing_backend ?e =
      ?e\<lparr>toasts := [ToastSuccess ''Profile updated successfully!''], routes := [''/'']\<rparr>"
    by (simp add: f) (simp add: initial_page_def)
  from C10_profile_submit [of ?b ok_backend example_user, THEN conjunct2, rule_format,
      OF u(3), THEN conjunct2]
  obtain rest where r: "calls (handleSubmit ok_backend ?b) =
      UserUpdate \<lparr>pu_name = None, pu_email = None, pu_bio = Some ''Hello''\<rparr> ''u1'' # rest"
    and "rest = [] \<or> rest = [AuthUpdateUser None None]"
    by (auto simp: f i)
  have "length (calls (handleSubmit ok_backend ?b)) = 1"
    by (simp add: handleSubmit_def initial_page_def Let_def build_profileUpdates_def
        keys_length_def truthy_str_def send_def ok_backend_def submit_succeeded_def)
  with r have 2: "calls (handleSubmit ok_backend ?b) =
      [UserUpdate \<lparr>pu_name = None, pu_email = None, pu_bio = Some ''Hello''\<rparr> ''u1'']"
    by simp
  show ?thesis
    unfolding 0 1 2 by (simp add: initial_page_def)
qed

section \<open>Single-row fetches\<close>

lemma select_eq_id_no_match:
  "userId \<notin> row_id ` set rows \<Longrightarrow> select_eq_id rows userId = []"
  by (auto simp: select_eq_id_def filter_empty_conv)

lemma fetchData_profile_fields:
  assumes "error (categories_res db) = None" and "error (subcategories_res db) = None"
    and "error (fetch_profile db (u_id u)) = None"
  shows "name (fetchData db u st) = field_or_empty row_name (data (fetch_profile db (u_id u)))"
    and "email (fetchData db u st) = field_or_empty row_email (data (fetch_profile db (u_id u)))"
    and "bio (fetchData db u st) = field_or_empty row_bio (data (fetch_profile db (u_id u)))"
    and "ToastError ''Error fetching profile'' \<in> set (toasts (fetchData db u st)) \<longrightarrow>
         ToastError ''Error fetching profile'' \<in> set (toasts st)"
  using assms
  by (simp_all add: fetchData_def Let_def toast_error_def split: option.split)

text \<open>
  C3, as stated: for a user id with no matching row, \<^verbatim>\<open>supabaseDb.getUser\<close>
  returns \<^verbatim>\<open>null\<close> data with a \<^verbatim>\<open>null\<close> error. It does not: it finishes its query
  with \<^verbatim>\<open>.single()\<close>, which answers zero rows with an error.
\<close>

theorem C3_getUser_counterexample:
  "''u1'' \<notin> row_id ` set example_rows \<and>
   data (getUser example_rows ''u1'') = None \<and>
   error (getUser example_rows ''u1'') = Some not_one_row"
  by (simp add: getUser_def single_def select_eq_id_def example_rows_def)

lemma fetchData_initial_fields:
  assumes "fetch_profile db (u_id u) = Response None None"
  shows "name (fetchData db u (initial_page (Some u))) = []"
    and "email (fetchData db u (initial_page (Some u))) = []"
    and "bio (fetchData db u (initial_page (Some u))) = []"
    and "ToastError ''Error fetching profile'' \<notin>
           set (toasts (fetchData db u (initial_page (Some u))))"
  using assms
  by (simp_all add: fetchData_def Let_def toast_error_def initial_page_def field_or_empty_def
      split: option.split)

text \<open>
  C3, amended: for a user id with no matching row, the profile page's fetch
  (finished with \<^verbatim>\<open>.maybeSingle()\<close>) returns \<^verbatim>\<open>null\<close> data with a \<^verbatim>\<open>null\<close> error,
  and the page then holds empty name, email and bio and raises no profile error;
  \<^verbatim>\<open>supabaseDb.getUser\<close> (finished with \<^verbatim>\<open>.single()\<close>) returns \<^verbatim>\<open>null\<close> data
  together with an error.
\<close>

theorem C3_zero_rows:
  assumes "userId \<notin> row_id ` set users" and "u_id u \<notin> row_id ` set (user_tbl db)"
  shows "getUser users userId = Response None (Some not_one_row) \<and>
         fetch_profile db (u_id u) = Response None None \<and>
         (error (categories_res db) = None \<and> error (subcategories_res db) = None \<longrightarrow>
            name (fetchData db u st) = [] \<and> email (fetchData db u st) = [] \<and>
            bio (fetchData db u st) = []) \<and>
         name (page_effect db (initial_page (Some u))) = [] \<and>
         email (page_effect db (initial_page (Some u))) = [] \<and>
         bio (page_effect db (initial_page (Some u))) = [] \<and>
         ToastError ''Error fetching profile'' \<notin>
           set (toasts (page_effect db (initial_page (Some u))))"
proof -
  have g: "getUser users userId = Response None (Some not_one_row)"
    by (simp add: select_eq_id_no_match [OF assms(1)] getUser_def single_def)
  have p: "fetch_profile db (u_id u) = Response None None"
    by (simp add: fetch_profile_def select_eq_id_no_match [OF assms(2)] maybeSingle_def)
  have e: "error (fetch_profile db (u_id u)) = None" by (simp add: p)
  have f: "error (categories_res db) = None \<and> error (subcategories_res db) = None \<longrightarrow>
            name (fetchData db u st) = [] \<and> email (fetchData db u st) = [] \<and>
            bio (fetchData db u st) = []"
    by (simp add: fetchData_profile_fields [OF _ _ e] p field_or_empty_def)
  have i: "page_effect db (initial_page (Some u)) = fetchData db u (initial_page (Some u))"
    by (simp add: page_effect_def initial_page_def)
  show ?thesis
    unfolding i using g p f fetchData_initial_fields [OF p] by blast
qed

theorem C3_zero_rows_witness:
  "getUser example_rows ''u1'' = Response None (Some not_one_row) \<and>
   fetch_profile example_db ''u1'' = Response None None \<and>
   name (fetchData example_db example_user (example_page (example_draft (Num 25)))) = [] \<and>
   email (fetchData example_db example_user (example_page (example_draft (Num 25)))) = [] \<and>
   bio (fetchData example_db example_user (example_page (example_draft (Num 25)))) = [] \<and>
   name (page_effect example_db (initial_page (Some example_user))) = []"
proof -
  have a: "''u1'' \<notin> row_id ` set example_rows"
    by (simp add: example_rows_def)
  have b: "u_id example_user \<notin> row_id ` set (user_tbl example_db)"
    by (simp add: example_user_def example_db_def example_rows_def)
  have c: "error (categories_res example_db) = None \<and>
           error (subcategories_res example_db) = None"
    by (simp add: example_db_def)
  have i: "u_id example_user = ''u1''" by (simp add: example_user_def)
  from C3_zero_rows [OF a b, of "example_page (example_draft (Num 25))"] c
  show ?thesis by (simp add: i)
qed

section \<open>The auth gateway\<close>

text \<open>
  C6, as stated: no gateway operation ever throws, whatever the provider does.
  The operations await the provider without a \<^verbatim>\<open>try\<close>, so a provider promise that
  rejects makes each of them reject with the same value.
\<close>

theorem C6_rejection_counterexample:
  "signUp rejecting_provider ''a@b.c'' ''secret'' = Rejected (JsError ''fetch failed'') \<and>
   signIn rejecting_provider ''a@b.c'' ''secret'' = Rejected (JsError ''fetch failed'') \<and>
   signOut rejecting_provider = Rejected (JsError ''fetch failed'') \<and>
   getCurrentUser rejecting_provider = Rejected (JsError ''fetch failed'') \<and>
   updateProfile rejecting_provider (Some ''Ann'') = Rejected (JsError ''fetch failed'')"
  by (simp add: signUp_def signIn_def signOut_def getCurrentUser_def updateProfile_def
      rejecting_provider_def)

text \<open>
  C6, amended: whenever the provider's promise resolves, the operation resolves
  too and returns the provider's fields as they are: data and error for
  \<^verbatim>\<open>signUp\<close>, \<^verbatim>\<open>signIn\<close> and \<^verbatim>\<open>updateProfile\<close>, user and error for
  \<^verbatim>\<open>getCurrentUser\<close>, and the error alone for \<^verbatim>\<open>signOut\<close>. When the provider's
  promise rejects, the operation rejects with the same value.
\<close>

theorem C6_gateway_passes_through:
  "(\<forall>r. auth_signUp p em pw = Resolved r \<longrightarrow>
        signUp p em pw = Resolved (Response (data r) (error r))) \<and>
   (\<forall>r. auth_signInWithPassword p em pw = Resolved r \<longrightarrow>
        signIn p em pw = Resolved (Response (data r) (error r))) \<and>
   (\<forall>e. auth_signOut p = Resolved (OnlyError e) \<longrightarrow> signOut p = Resolved (OnlyError e)) \<and>
   (\<forall>r. auth_getUser p = Resolved r \<longrightarrow>
        getCurrentUser p = Resolved (UserError (data r) (error r))) \<and>
   (\<forall>r. auth_updateUser p updates = Resolved r \<longrightarrow>
        updateProfile p updates = Resolved (Response (data r) (error r))) \<and>
   (\<forall>x. auth_signUp p em pw = Rejected x \<longrightarrow> signUp p em pw = Rejected x) \<and>
   (\<forall>x. auth_signInWithPassword p em pw = Rejected x \<longrightarrow> signIn p em pw = Rejected x) \<and>
   (\<forall>x. auth_signOut p = Rejected x \<longrightarrow> signOut p = Rejected x) \<and>
   (\<forall>x. auth_getUser p = Rejected x \<longrightarrow> getCurrentUser p = Rejected x) \<and>
   (\<forall>x. auth_updateUser p updates = Rejected x \<longrightarrow> updateProfile p updates = Rejected x)"
proof (intro conjI allI impI)
  fix r assume "auth_signUp p em pw = Resolved r"
  then show "signUp p em pw = Resolved (Response (data r) (error r))"
    by (cases r) (simp add: signUp_def)
next
  fix r assume "auth_signInWithPassword p em pw = Resolved r"
  then show "signIn p em pw = Resolved (Response (data r) (error r))"
    by (cases r) (simp add: signIn_def)
next
  fix e assume "auth_signOut p = Resolved (OnlyError e)"
  then show "signOut p = Resolved (OnlyError e)"
    by (simp add: signOut_def)
next
  fix r assume "auth_getUser p = Resolved r"
  then show "getCurrentUser p = Resolved (UserError (data r) (error r))"
    by (cases r) (simp add: getCurrentUser_def)
next
  fix r assume "auth_updateUser p updates = Resolved r"
  then show "updateProfile p updates = Resolved (Response (data r) (error r))"
    by (cases r) (simp add: updateProfile_def)
qed (simp_all add: signUp_def signIn_def signOut_def getCurrentUser_def updateProfile_def)

theorem C6_gateway_passes_through_witness:
  "signUp resolving_provider ''a@b.c'' ''secret'' = Resolved (Response (Some ''a@b.c'') None) \<and>
   signIn resolving_provider ''a@b.c'' ''secret'' =
     Resolved (Response None (Some (Error ''Invalid login credentials''))) \<and>
   signOut resolving_provider = Resolved (OnlyError None) \<and>
   getCurrentUser resolving_provider = Resolved (UserError (Some ''u1'') None) \<and>
   updateProfile resolving_provider (Some ''Ann'') = Resolved (Response (Some ''u1'') None)"
proof -
  note t = C6_gateway_passes_through
    [of resolving_provider "''a@b.c''" "''secret''" "Some ''Ann''"]
  have p: "auth_signUp resolving_provider ''a@b.c'' ''secret'' =
             Resolved (Response (Some ''a@b.c'') None)"
    "auth_signInWithPassword resolving_provider ''a@b.c'' ''secret'' =
             Resolved (Response None (Some (Error ''Invalid login credentials'')))"
    "auth_signOut resolving_provider = Resolved (OnlyError None)"
    "auth_getUser resolving_provider = Resolved (Response (Some ''u1'') None)"
    "auth_updateUser resolving_provider (Some ''Ann'') = Resolved (Response (Some ''u1'') None)"
    by (simp_all add: resolving_provider_def)
  from t p show ?thesis by simp
qed

section \<open>The subcategory hook with an empty category id\<close>

lemma fetchSubcategories_empty:
  "fetchSubcategories [] h =
     (setState \<lparr>subCategories = [], sub_loading = False, sub_error = None\<rparr> h)
       \<lparr>effects := effects h @ [\<lparr>mounted = True, awaiting = False, effect_categoryId = []\<rparr>]\<rparr>"
  by (simp add: fetchSubcategories_def truthy_str_def)

text \<open>
  C5: run with an empty category id, the effect of the subcategory hook sets the
  state at once to an empty subcategory list, \<^verbatim>\<open>loading\<close> false and a \<^verbatim>\<open>null\<close>
  error, issues no network call and leaves no fetch in flight; so does a
  render of a live hook whose category id becomes empty, or that mounts with an
  empty id.
\<close>

theorem C5_empty_category_short_circuit:
  "state (fetchSubcategories [] h) =
     \<lparr>subCategories = [], sub_loading = False, sub_error = None\<rparr> \<and>
   requests (fetchSubcategories [] h) = requests h \<and>
   \<not> awaiting (last (effects (fetchSubcategories [] h))) \<and>
   (\<not> unmounted h \<and> (effects h = [] \<or> effect_categoryId (last (effects h)) \<noteq> []) \<longrightarrow>
      state (sub_step (Render []) h) =
        \<lparr>subCategories = [], sub_loading = False, sub_error = None\<rparr> \<and>
      requests (sub_step (Render []) h) = requests h \<and>
      \<not> awaiting (last (effects (sub_step (Render []) h))))"
  by (auto simp: fetchSubcategories_empty setState_def)

theorem C5_empty_category_short_circuit_witness:
  "state (sub_step (Render []) sub_init) =
     \<lparr>subCategories = [], sub_loading = False, sub_error = None\<rparr> \<and>
   requests (sub_step (Render []) sub_init) = [] \<and>
   state (sub_step (Render []) (sub_step (Render ''c1'') sub_init)) =
     \<lparr>subCategories = [], sub_loading = False, sub_error = None\<rparr> \<and>
   requests (sub_step (Render []) (sub_step (Render ''c1'') sub_init)) = [''c1'']"
proof -
  have a: "\<not> unmounted sub_init" "effects sub_init = []" "requests sub_init = []"
    by (simp_all add: sub_init_def)
  let ?h = "sub_step (Render ''c1'') sub_init"
  have b: "\<not> unmounted ?h" "effect_categoryId (last (effects ?h)) \<noteq> []"
    "requests ?h = [''c1'']"
    by (simp_all add: sub_init_def fetchSubcategories_def truthy_str_def setState_def
        cleanup_last_def)
  from C5_empty_category_short_circuit [of sub_init] a
    C5_empty_category_short_circuit [of ?h] b
  show ?thesis by simp
qed

section \<open>The mount guard\<close>

subsection \<open>The category hook\<close>

lemma cat_step_unmounted:
  "\<not> cmounted h \<Longrightarrow>
   \<not> cmounted (cat_step ev h) \<and> cwritten (cat_step ev h) = cwritten h \<and>
   cstate (cat_step ev h) = cstate h"
proof (cases ev)
  case (CatSettle out)
  assume "\<not> cmounted h"
  then show ?thesis
    by (cases out) (simp_all add: CatSettle Let_def split: prod.split)
next
  case CatUnmount
  assume "\<not> cmounted h"
  then show ?thesis by (simp add: CatUnmount)
qed


lemma cat_run_unmounted:
  "\<not> cmounted h \<Longrightarrow>
   cwritten (cat_run evs h) = cwritten h \<and> cstate (cat_run evs h) = cstate h"
proof (induction evs arbitrary: h)
  case Nil
  show ?case by (simp add: cat_run_def)
next
  case (Cons ev evs)
  from cat_step_unmounted [OF Cons.prems, of ev] Cons.IH [of "cat_step ev h"]
  show ?case by (simp add: cat_run_def)
qed

subsection \<open>The subcategory hook\<close>

lemma cleanup_last_unmounted:
  "\<forall>e \<in> set (butlast es). \<not> mounted e \<Longrightarrow> \<forall>e \<in> set (cleanup_last es). \<not> mounted e"
  by (auto simp: cleanup_last_def)

lemma update_awaiting_mounted:
  "i < length es \<Longrightarrow>
   map mounted (es[i := (es ! i)\<lparr>awaiting := False\<rparr>]) = map mounted es"
  by (simp add: map_update list_update_same_conv)

lemma settle_frame:
  "map mounted (effects (settle i out h)) = map mounted (effects h) \<and>
   unmounted (settle i out h) = unmounted h"
proof (cases "i < length (effects h) \<and> awaiting (effects h ! i)")
  case True
  then show ?thesis
    by (cases out) (simp_all add: settle_def Let_def setState_def update_awaiting_mounted)
next
  case False
  show ?thesis unfolding settle_def by (simp only: False if_False simp_thms)
qed

lemma cleaned_up_map:
  "cleaned_up h =
     ((\<forall>b \<in> set (butlast (map mounted (effects h))). \<not> b) \<and>
      (unmounted h \<longrightarrow> (\<forall>b \<in> set (map mounted (effects h)). \<not> b)))"
  by (simp add: cleaned_up_def map_butlast [symmetric])


lemma sub_step_cleaned_up: "cleaned_up h \<Longrightarrow> cleaned_up (sub_step ev h)"
proof (cases ev)
  case (Render c)
  assume a: "cleaned_up h"
  show ?thesis
  proof (cases "unmounted h \<or> (effects h \<noteq> [] \<and> effect_categoryId (last (effects h)) = c)")
    case True
    with a show ?thesis by (auto simp: Render)
  next
    case False
    from a have "\<forall>e \<in> set (butlast (effects h)). \<not> mounted e"
      by (simp add: cleaned_up_def)
    then have "\<forall>e \<in> set (cleanup_last (effects h)). \<not> mounted e"
      by (rule cleanup_last_unmounted)
    with False show ?thesis
      by (auto simp: Render cleaned_up_def fetchSubcategories_def setState_def)
  qed
next
  case (Settle i out)
  have "cleaned_up (settle i out h) = cleaned_up h"
    unfolding cleaned_up_map settle_frame [THEN conjunct1] settle_frame [THEN conjunct2]
    by (rule refl)
  moreover assume "cleaned_up h"
  ultimately show ?thesis
    by (simp add: Settle)
next
  case Unmount
  assume a: "cleaned_up h"
  show ?thesis
  proof (cases "unmounted h")
    case True
    with a show ?thesis by (simp add: Unmount)
  next
    case False
    from a have "\<forall>e \<in> set (butlast (effects h)). \<not> mounted e"
      by (simp add: cleaned_up_def)
    then have c: "\<forall>e \<in> set (cleanup_last (effects h)). \<not> mounted e"
      by (rule cleanup_last_unmounted)
    then have "\<forall>e \<in> set (butlast (cleanup_last (effects h))). \<not> mounted e"
      by (blast dest: in_set_butlastD)
    with c False show ?thesis
      by (simp add: Unmount cleaned_up_def)
  qed
qed


lemma sub_run_cleaned_up: "cleaned_up h \<Longrightarrow> cleaned_up (sub_run evs h)"
proof (induction evs arbitrary: h)
  case Nil
  then show ?case by (simp add: sub_run_def)
next
  case (Cons ev evs)
  from Cons.IH [OF sub_step_cleaned_up [OF Cons.prems, of ev]]
  show ?case by (simp add: sub_run_def)
qed

lemma sub_init_cleaned_up: "cleaned_up sub_init"
  by (simp add: cleaned_up_def sub_init_def)

lemma settle_guarded:
  assumes "\<forall>e \<in> set (effects h). \<not> mounted e"
  shows "written (settle i out h) = written h \<and> state (settle i out h) = state h"
proof (cases "i < length (effects h) \<and> awaiting (effects h ! i)")
  case True
  then have "effects h ! i \<in> set (effects h)" by simp
  with assms have "\<not> mounted (effects h ! i)" by blast
  with True show ?thesis
    by (cases out) (simp_all add: settle_def Let_def)
next
  case False
  show ?thesis unfolding settle_def by (simp only: False if_False simp_thms)
qed

lemma sub_step_after_unmount:
  assumes "cleaned_up h" and "unmounted h"
  shows "written (sub_step ev h) = written h \<and> state (sub_step ev h) = state h \<and>
         unmounted (sub_step ev h)"
proof (cases ev)
  case (Render c)
  with assms(2) show ?thesis by simp
next
  case (Settle i out)
  from assms have "\<forall>e \<in> set (effects h). \<not> mounted e"
    by (simp add: cleaned_up_def)
  from settle_guarded [OF this, of i out] assms(2) show ?thesis
    by (simp add: Settle settle_frame)
next
  case Unmount
  with assms(2) show ?thesis by simp
qed

lemma sub_run_after_unmount:
  "cleaned_up h \<Longrightarrow> unmounted h \<Longrightarrow>
   written (sub_run evs h) = written h \<and> state (sub_run evs h) = state h"
proof (induction evs arbitrary: h)
  case Nil
  show ?case by (simp add: sub_run_def)
next
  case (Cons ev evs)
  note s = sub_step_after_unmount [OF Cons.prems, of ev]
  from s have u: "unmounted (sub_step ev h)" by simp
  from Cons.IH [OF sub_step_cleaned_up [OF Cons.prems(1), of ev] u] s
  show ?case by (simp add: sub_run_def)
qed

lemma unmount_writes_nothing:
  "written (sub_step Unmount h) = written h \<and> state (sub_step Unmount h) = state h \<and>
   unmounted (sub_step Unmount h)"
  by simp

text \<open>
  C7: in every sequence of events of a hook instance that contains an unmount,
  whatever happens before and after it, no state is written from the unmount
  on: the list of written states and the state cell are those of the moment of
  the unmount. This holds for the subcategory hook, started from its initial
  instance, and for the category hook, started from its mount.
\<close>

theorem C7_no_write_after_unmount:
  "written (sub_run (evs1 @ Unmount # evs2) sub_init) = written (sub_run evs1 sub_init) \<and>
   state (sub_run (evs1 @ Unmount # evs2) sub_init) = state (sub_run evs1 sub_init) \<and>
   cwritten (cat_run (cevs1 @ CatUnmount # cevs2) cat_mount) =
     cwritten (cat_run cevs1 cat_mount) \<and>
   cstate (cat_run (cevs1 @ CatUnmount # cevs2) cat_mount) = cstate (cat_run cevs1 cat_mount)"
proof -
  let ?h = "sub_run evs1 sub_init"
  have c: "cleaned_up (sub_step Unmount ?h)"
    by (intro sub_step_cleaned_up sub_run_cleaned_up sub_init_cleaned_up)
  have r: "sub_run (evs1 @ Unmount # evs2) sub_init = sub_run evs2 (sub_step Unmount ?h)"
    by (simp add: sub_run_def)
  from unmount_writes_nothing [of ?h] have u: "unmounted (sub_step Unmount ?h)" by blast
  have sub: "written (sub_run (evs1 @ Unmount # evs2) sub_init) = written ?h \<and>
      state (sub_run (evs1 @ Unmount # evs2) sub_init) = state ?h"
    unfolding r using sub_run_after_unmount [OF c u, of evs2] unmount_writes_nothing [of ?h]
    by simp
  let ?c = "cat_run cevs1 cat_mount"
  have cr: "cat_run (cevs1 @ CatUnmount # cevs2) cat_mount = cat_run cevs2 (cat_step CatUnmount ?c)"
    by (simp add: cat_run_def)
  have "\<not> cmounted (cat_step CatUnmount ?c)" by simp
  from cat_run_unmounted [OF this, of cevs2]
  have cat: "cwritten (cat_run (cevs1 @ CatUnmount # cevs2) cat_mount) = cwritten ?c \<and>
      cstate (cat_run (cevs1 @ CatUnmount # cevs2) cat_mount) = cstate ?c"
    unfolding cr by simp
  from sub cat show ?thesis by blast
qed

theorem C7_no_write_after_unmount_witness:
  "written (sub_run [Render ''c1'', Unmount, Settle 0 (Resolved (Some example_subcategories))]
              sub_init) =
     [\<lparr>subCategories = [], sub_loading = True, sub_error = None\<rparr>] \<and>
   written (sub_run [Render ''c1'', Settle 0 (Resolved (Some example_subcategories))]
              sub_init) =
     [\<lparr>subCategories = [], sub_loading = True, sub_error = None\<rparr>,
      \<lparr>subCategories = example_subcategories, sub_loading = False, sub_error = None\<rparr>] \<and>
   cwritten (cat_run [CatUnmount, CatSettle (Rejected (JsError ''fetch failed''))] cat_mount) = [] \<and>
   cwritten (cat_run [CatSettle (Rejected (JsError ''fetch failed''))] cat_mount) =
     [\<lparr>cat_categories = [], cat_subCategories = [], cat_loading = False,
       cat_error = Some ''fetch failed''\<rparr>]"
proof -
  have a: "written (sub_run [Render ''c1''] sub_init) =
      [\<lparr>subCategories = [], sub_loading = True, sub_error = None\<rparr>]"
    by (simp add: sub_run_def sub_init_def fetchSubcategories_def truthy_str_def setState_def
        cleanup_last_def)
  have b: "written (sub_run [Render ''c1'', Settle 0 (Resolved (Some example_subcategories))]
              sub_init) =
     [\<lparr>subCategories = [], sub_loading = True, sub_error = None\<rparr>,
      \<lparr>subCategories = example_subcategories, sub_loading = False, sub_error = None\<rparr>]"
    by (simp add: sub_run_def sub_init_def fetchSubcategories_def truthy_str_def setState_def
        cleanup_last_def settle_def or_empty_def)
  have c: "cwritten (cat_run [] cat_mount) = []"
    by (simp add: cat_run_def cat_mount_def)
  have d: "cwritten (cat_run [CatSettle (Rejected (JsError ''fetch failed''))] cat_mount) =
     [\<lparr>cat_categories = [], cat_subCategories = [], cat_loading = False,
       cat_error = Some ''fetch failed''\<rparr>]"
    by (simp add: cat_run_def cat_mount_def csetState_def message_or_def)
  from C7_no_write_after_unmount [of "[Render ''c1'']"
      "[Settle 0 (Resolved (Some example_subcategories))]" "[]"
      "[CatSettle (Rejected (JsError ''fetch failed''))]"]
  show ?thesis
    by (simp add: a b c d)
qed

section \<open>Category and subcategory selection\<close>

lemma form_run_snoc: "form_run (evs @ [ev]) st = form_step ev (form_run evs st)"
  by (simp add: form_run_def)

lemma form_step_frame:
  assumes "\<forall>w. ev \<noteq> CategoryChange w" and "\<forall>w. ev \<noteq> SubcategoryChange w"
    and "subcategory_id (newService (form_step ev st)) \<noteq> []"
  shows "subcategory_id (newService (form_step ev st)) = subcategory_id (newService st) \<and>
         category_id (newService (form_step ev st)) = category_id (newService st)"
  using assms
  by (cases ev) (simp_all add: addService_def emptyService_def removeService_def split: if_splits)

lemma form_trace:
  assumes "subcategory_id (newService st0) = []"
  shows "subcategory_id (newService (form_run evs st0)) \<noteq> [] \<longrightarrow>
         (\<exists>evs1 evs2.
            evs = evs1 @ SubcategoryChange (subcategory_id (newService (form_run evs st0))) # evs2 \<and>
            category_id (newService (form_run evs1 st0)) =
              category_id (newService (form_run evs st0)) \<and>
            (\<forall>w. CategoryChange w \<notin> set evs2))"
proof (induction evs rule: rev_induct)
  case Nil
  show ?case by (simp add: form_run_def assms)
next
  case (snoc ev evs)
  let ?st = "form_run evs st0"
  show ?case
  proof (intro impI)
    assume ne: "subcategory_id (newService (form_run (evs @ [ev]) st0)) \<noteq> []"
    consider (cat) w where "ev = CategoryChange w"
      | (sub) w where "ev = SubcategoryChange w"
      | (other) "\<forall>w. ev \<noteq> CategoryChange w" "\<forall>w. ev \<noteq> SubcategoryChange w"
      by blast
    then show "\<exists>evs1 evs2.
        evs @ [ev] =
          evs1 @ SubcategoryChange (subcategory_id (newService (form_run (evs @ [ev]) st0))) # evs2 \<and>
        category_id (newService (form_run evs1 st0)) =
          category_id (newService (form_run (evs @ [ev]) st0)) \<and>
        (\<forall>w. CategoryChange w \<notin> set evs2)"
    proof cases
      case cat
      with ne show ?thesis by (simp add: form_run_snoc)
    next
      case sub
      have "evs @ [ev] =
          evs @ SubcategoryChange (subcategory_id (newService (form_run (evs @ [ev]) st0))) # [] \<and>
        category_id (newService (form_run evs st0)) =
          category_id (newService (form_run (evs @ [ev]) st0)) \<and>
        (\<forall>w. CategoryChange w \<notin> set [])"
        by (simp add: sub form_run_snoc)
      then show ?thesis by blast
    next
      case other
      from ne have ne': "subcategory_id (newService (form_step ev ?st)) \<noteq> []"
        by (simp add: form_run_snoc)
      note f = form_step_frame [OF other ne']
      with ne' have "subcategory_id (newService ?st) \<noteq> []" by simp
      with snoc.IH obtain evs1 evs2 where
        e: "evs = evs1 @ SubcategoryChange (subcategory_id (newService ?st)) # evs2"
        and c: "category_id (newService (form_run evs1 st0)) = category_id (newService ?st)"
        and n: "\<forall>w. CategoryChange w \<notin> set evs2"
        by blast
      from e have "evs @ [ev] =
          evs1 @ SubcategoryChange (subcategory_id (newService ?st)) # (evs2 @ [ev])"
        by simp
      moreover from n other(1) have "\<forall>w. CategoryChange w \<notin> set (evs2 @ [ev])"
        by auto
      ultimately have "evs @ [ev] =
          evs1 @ SubcategoryChange (subcategory_id (newService (form_run (evs @ [ev]) st0))) #
            (evs2 @ [ev]) \<and>
        category_id (newService (form_run evs1 st0)) =
          category_id (newService (form_run (evs @ [ev]) st0)) \<and>
        (\<forall>w. CategoryChange w \<notin> set (evs2 @ [ev]))"
        using f c by (simp add: form_run_snoc)
      then show ?thesis by blast
    qed
  qed
qed


lemma add_run_snoc: "add_run (evs @ [ev]) st = add_step ev (add_run evs st)"
  by (simp add: add_run_def)

lemma add_trace:
  assumes "selectedSubcategory a0 = []"
  shows "selectedSubcategory (add_run evs a0) \<noteq> [] \<longrightarrow>
         (\<exists>evs1 evs2.
            evs = evs1 @ OnSubcategoryChange (selectedSubcategory (add_run evs a0)) # evs2 \<and>
            selectedCategory (add_run evs1 a0) = selectedCategory (add_run evs a0) \<and>
            (\<forall>w. OnCategoryChange w \<notin> set evs2))"
proof (induction evs rule: rev_induct)
  case Nil
  show ?case by (simp add: add_run_def assms)
next
  case (snoc ev evs)
  show ?case
  proof (cases ev)
    case (OnCategoryChange w)
    then show ?thesis by (simp add: add_run_snoc)
  next
    case (OnSubcategoryChange w)
    have "evs @ [ev] =
        evs @ OnSubcategoryChange (selectedSubcategory (add_run (evs @ [ev]) a0)) # [] \<and>
      selectedCategory (add_run evs a0) = selectedCategory (add_run (evs @ [ev]) a0) \<and>
      (\<forall>w. OnCategoryChange w \<notin> set [])"
      by (simp add: OnSubcategoryChange add_run_snoc)
    then show ?thesis by blast
  qed
qed

text \<open>
  C9: a change of the selected category sets the selected subcategory to empty
  in the same step, in the form of \<^verbatim>\<open>ProfilePage\<close> and in the form of
  \<^verbatim>\<open>AddServicePage\<close>. Consequently, in every state reached from a form with no
  subcategory selected, a non-empty selected subcategory is the value of a
  subcategory selection made when the category was already the current one, and
  no category change has happened since.
\<close>

theorem C9_category_change_resets_subcategory:
  "category_id (newService (form_step (CategoryChange v) st)) = v \<and>
   subcategory_id (newService (form_step (CategoryChange v) st)) = [] \<and>
   selectedCategory (add_step (OnCategoryChange v) a) = v \<and>
   selectedSubcategory (add_step (OnCategoryChange v) a) = [] \<and>
   (subcategory_id (newService st0) = [] \<and>
    subcategory_id (newService (form_run evs st0)) \<noteq> [] \<longrightarrow>
      (\<exists>evs1 evs2.
         evs = evs1 @ SubcategoryChange (subcategory_id (newService (form_run evs st0))) # evs2 \<and>
         category_id (newService (form_run evs1 st0)) =
           category_id (newService (form_run evs st0)) \<and>
         (\<forall>w. CategoryChange w \<notin> set evs2))) \<and>
   (selectedSubcategory a0 = [] \<and> selectedSubcategory (add_run aevs a0) \<noteq> [] \<longrightarrow>
      (\<exists>evs1 evs2.
         aevs = evs1 @ OnSubcategoryChange (selectedSubcategory (add_run aevs a0)) # evs2 \<and>
         selectedCategory (add_run evs1 a0) = selectedCategory (add_run aevs a0) \<and>
         (\<forall>w. OnCategoryChange w \<notin> set evs2)))"
proof (intro conjI impI)
  assume "subcategory_id (newService st0) = [] \<and>
    subcategory_id (newService (form_run evs st0)) \<noteq> []"
  then show "\<exists>evs1 evs2.
         evs = evs1 @ SubcategoryChange (subcategory_id (newService (form_run evs st0))) # evs2 \<and>
         category_id (newService (form_run evs1 st0)) =
           category_id (newService (form_run evs st0)) \<and>
         (\<forall>w. CategoryChange w \<notin> set evs2)"
    using form_trace [of st0 evs] by blast
next
  assume "selectedSubcategory a0 = [] \<and> selectedSubcategory (add_run aevs a0) \<noteq> []"
  then show "\<exists>evs1 evs2.
         aevs = evs1 @ OnSubcategoryChange (selectedSubcategory (add_run aevs a0)) # evs2 \<and>
         selectedCategory (add_run evs1 a0) = selectedCategory (add_run aevs a0) \<and>
         (\<forall>w. OnCategoryChange w \<notin> set evs2)"
    using add_trace [of a0 aevs] by blast
qed simp_all

theorem C9_category_change_resets_subcategory_witness:
  "subcategory_id (newService (form_run
      [CategoryChange ''c1'', SubcategoryChange ''s1'', CategoryChange ''c2'']
      (initial_page (Some example_user)))) = [] \<and>
   subcategory_id (newService (form_run
      [CategoryChange ''c1'', SubcategoryChange ''s1'', DescriptionChange ''Landing pages'']
      (initial_page (Some example_user)))) = ''s1'' \<and>
   (\<exists>evs1 evs2.
      [CategoryChange ''c1'', SubcategoryChange ''s1'', DescriptionChange ''Landing pages''] =
        evs1 @ SubcategoryChange ''s1'' # evs2 \<and>
      category_id (newService (form_run evs1 (initial_page (Some example_user)))) = ''c1'' \<and>
      (\<forall>w. CategoryChange w \<notin> set evs2)) \<and>
   (\<exists>evs1 evs2.
      [OnCategoryChange ''c1'', OnSubcategoryChange ''s1''] =
        evs1 @ OnSubcategoryChange ''s1'' # evs2 \<and>
      selectedCategory (add_run evs1 add_page_init) = ''c1'' \<and>
      (\<forall>w. OnCategoryChange w \<notin> set evs2))"
proof -
  let ?evs = "[CategoryChange ''c1'', SubcategoryChange ''s1'', DescriptionChange ''Landing pages'']"
  let ?st0 = "initial_page (Some example_user)"
  let ?aevs = "[OnCategoryChange ''c1'', OnSubcategoryChange ''s1'']"
  have i: "subcategory_id (newService ?st0) = []" "selectedSubcategory add_page_init = []"
    by (simp_all add: initial_page_def emptyService_def add_page_init_def)
  have r: "subcategory_id (newService (form_run ?evs ?st0)) = ''s1''"
    "category_id (newService (form_run ?evs ?st0)) = ''c1''"
    "selectedSubcategory (add_run ?aevs add_page_init) = ''s1''"
    "selectedCategory (add_run ?aevs add_page_init) = ''c1''"
    by (simp_all add: form_run_def add_run_def)
  have z: "subcategory_id (newService (form_run
      [CategoryChange ''c1'', SubcategoryChange ''s1'', CategoryChange ''c2''] ?st0)) = []"
    by (simp add: form_run_def)
  note t = C9_category_change_resets_subcategory [of _ _ _ ?st0 ?evs add_page_init ?aevs]
  from t i r have 1: "\<exists>evs1 evs2.
      ?evs = evs1 @ SubcategoryChange ''s1'' # evs2 \<and>
      category_id (newService (form_run evs1 ?st0)) = ''c1'' \<and>
      (\<forall>w. CategoryChange w \<notin> set evs2)"
    by simp
  from t i r have 2: "\<exists>evs1 evs2.
      ?aevs = evs1 @ OnSubcategoryChange ''s1'' # evs2 \<and>
      selectedCategory (add_run evs1 add_page_init) = ''c1'' \<and>
      (\<forall>w. OnCategoryChange w \<notin> set evs2)"
    by simp
  from z r(1) 1 2 show ?thesis by blast
qed

end
